theory Spec2Isabelle
  imports Main "HOL-Library.AList"
begin

section \<open>Python exceptions\<close>

text \<open>
  Every exception the modelled code raises, or lets an overridden method raise, is a value
  of \<open>pyerror\<close>. A function that may raise returns \<open>pyerror + 'a\<close> with \<open>Inl\<close> the
  exception. \<open>CancelledError\<close> and \<open>KeyboardInterrupt\<close> derive from \<open>BaseException\<close>
  only (the code uses the builtins \<open>aiter\<close>/\<open>anext\<close>, so Python is 3.10 or later), hence
  an \<open>except Exception\<close> clause does not catch them.
\<close>

datatype pyerror =
    NotImplementedError
  | KeyError
  | AttributeError
  | ValueError
  | TypeError
  | FileExistsError
  | OSError
  | AssertionError
  | CancelledError
  | KeyboardInterrupt

fun is_Exception :: "pyerror \<Rightarrow> bool" where
  "is_Exception CancelledError = False"
| "is_Exception KeyboardInterrupt = False"
| "is_Exception _ = True"

section \<open>Records: \<open>pydantic_exportables/jsonexportable.py\<close>, class \<open>JSONExportable\<close>\<close>

text \<open>
  An instance of a \<open>JSONExportable\<close> subclass is its class name, its \<open>__dict__\<close> (field
  name to value, in insertion order) and its \<open>model_fields_set\<close>. A Python set is kept as
  a list without duplicates; the list order stands for the set's iteration order. A field
  value is either another \<open>JSONExportable\<close> (\<open>Rec\<close>) or any other Python value
  (\<open>Atom\<close>), which is what \<open>isinstance(value, JSONExportable)\<close> distinguishes.
\<close>

datatype 'a val = Atom 'a | Rec "'a jrec"
and 'a jrec = JRec (cls_name: string) (dict: "(string \<times> 'a val) list") (fields_set: "string list")

text \<open>\<open>getattr(obj, key)\<close> on an instance: the entry of \<open>__dict__\<close>, or \<open>AttributeError\<close>.\<close>

definition getattr :: "'a jrec \<Rightarrow> string \<Rightarrow> pyerror + 'a val" where
  "getattr obj key = (case map_of (dict obj) key of None \<Rightarrow> Inl AttributeError | Some v \<Rightarrow> Inr v)"

text \<open>
  \<open>_set_skip_validation\<close>, for a name that is a model field. The names it is called with
  come from \<open>model_fields_set\<close>; for those the class attribute is not a \<open>property\<close>, so the
  branch taken is \<open>self.__dict__[name] = value; self.__pydantic_fields_set__.add(name)\<close>.
\<close>

definition set_skip_validation :: "'a jrec \<Rightarrow> string \<Rightarrow> 'a val \<Rightarrow> 'a jrec" where
  "set_skip_validation self name v =
     JRec (cls_name self) (AList.update name v (dict self)) (List.insert name (fields_set self))"

text \<open>
  The nested branch of \<open>update\<close> mutates the object held in the field in place. With
  records as values, the mutated nested record is stored back under the same key;
  \<open>model_fields_set\<close> of the holder is not touched there.
\<close>

definition store_nested :: "'a jrec \<Rightarrow> string \<Rightarrow> 'a jrec \<Rightarrow> 'a jrec" where
  "store_nested self name old = JRec (cls_name self) (AList.update name (Rec old) (dict self)) (fields_set self)"

lemma getattr_size [termination_simp]:
  "getattr new key = Inr (Rec v) \<Longrightarrow> size v < size new"
proof -
  assume h: "getattr new key = Inr (Rec v)"
  then have "map_of (dict new) key = Some (Rec v)"
    by (auto simp: getattr_def split: option.splits)
  then have m: "(key, Rec v) \<in> set (dict new)"
    by (rule map_of_SomeD)
  have "size_prod (\<lambda>_. 0) size (key, Rec v) \<le> size_list (size_prod (\<lambda>_. 0) size) (dict new)"
    using m by (simp add: size_list_estimation')
  then show ?thesis
    by (cases new) simp
qed

text \<open>
  The property \<open>index\<close> raises \<open>NotImplementedError\<close> in the base class and is overridden
  by the subclasses that have an index. It is a parameter \<open>index\<close> of everything that
  reads it: the value of \<open>obj.index\<close> for each instance, or the exception it raises.
  \<open>base_index\<close> is the base class's own property.
\<close>

definition base_index :: "'a jrec \<Rightarrow> pyerror + 'k" where
  "base_index self = Inl NotImplementedError"

text \<open>
  \<open>JSONExportable.update(self, new, match_index)\<close>. The call mutates \<open>self\<close> in place,
  also when it ends in an exception: the result is \<open>self\<close> as the call leaves it,
  together with the exception raised or the flag returned. \<open>update_fields\<close> is the loop
  \<open>for key in new.model_fields_set\<close>, its last argument the pair of \<open>self\<close> and the
  local \<open>updated\<close> so far. A nested \<open>update\<close> that raises has already mutated the nested
  record, which \<open>self\<close> still holds.
\<close>

function update :: "('a jrec \<Rightarrow> pyerror + 'k) \<Rightarrow> 'a jrec \<Rightarrow> 'a jrec \<Rightarrow> bool \<Rightarrow> 'a jrec \<times> (pyerror + bool)"
  and update_fields :: "('a jrec \<Rightarrow> pyerror + 'k) \<Rightarrow> bool \<Rightarrow> 'a jrec \<Rightarrow> string list \<Rightarrow> 'a jrec \<times> bool
      \<Rightarrow> 'a jrec \<times> (pyerror + bool)"
where
  "update index self new match_index =
     (if match_index then
        (case index self of
           Inl e \<Rightarrow> (self, Inl e)
         | Inr i \<Rightarrow>
            (case index new of
               Inl e \<Rightarrow> (self, Inl e)
             | Inr j \<Rightarrow>
                if i \<noteq> j then (self, Inr False)
                else update_fields index match_index new (fields_set new) (self, False)))
      else update_fields index match_index new (fields_set new) (self, False))"
| "update_fields index match_index new [] (self, updated) = (self, Inr updated)"
| "update_fields index match_index new (key # keys) (self, updated) =
     (case getattr new key of
        Inl e \<Rightarrow> (self, Inl e)
      | Inr (Atom a) \<Rightarrow>
          update_fields index match_index new keys (set_skip_validation self key (Atom a), True)
      | Inr (Rec v) \<Rightarrow>
          (case getattr self key of
             Inl e \<Rightarrow> (self, Inl e)
           | Inr (Atom b) \<Rightarrow>
               update_fields index match_index new keys (set_skip_validation self key (Rec v), True)
           | Inr (Rec old) \<Rightarrow>
               (case update index old v match_index of
                  (old', Inl e) \<Rightarrow> (store_nested self key old', Inl e)
                | (old', Inr changed) \<Rightarrow>
                    update_fields index match_index new keys
                      (store_nested self key old', if changed then True else updated))))"
  by pat_completeness auto
termination
  by (relation "measures
        [\<lambda>x. case x of Inl (_, _, new, _) \<Rightarrow> size new | Inr (_, _, new, _, _) \<Rightarrow> size new,
         \<lambda>x. case x of Inl (_, _, new, _) \<Rightarrow> Suc (length (fields_set new))
                      | Inr (_, _, _, keys, _) \<Rightarrow> length keys]")
     (auto simp: getattr_size)

text \<open>
  The body of the loop raises nothing for the key \<open>k\<close>: the field can be read on
  \<open>new\<close>; if it holds a record there, it can be read on \<open>self\<close>; and if both sides hold
  records, the nested \<open>update\<close> returns.
\<close>

definition step_returns :: "('a jrec \<Rightarrow> pyerror + 'k) \<Rightarrow> bool \<Rightarrow> 'a jrec \<Rightarrow> 'a jrec \<Rightarrow> string \<Rightarrow> bool" where
  "step_returns index m self new k =
     ((\<exists>v. getattr new k = Inr v)
      \<and> (\<forall>v. getattr new k = Inr (Rec v) \<longrightarrow>
            (\<exists>ov. getattr self k = Inr ov)
            \<and> (\<forall>old. getattr self k = Inr (Rec old) \<longrightarrow>
                  (\<exists>old' c. update index old v m = (old', Inr c)))))"

text \<open>
  \<open>__hash__\<close> of \<open>pydantic_exportables\<close>: \<open>hash(self.index)\<close>, and \<open>hash(id(self))\<close> when
  reading the index raises \<open>NotImplementedError\<close>. The builtin \<open>hash\<close> on index values
  and on integers and the object's \<open>id\<close> are parameters.
\<close>

definition hash_exportable :: "('k \<Rightarrow> int) \<Rightarrow> (int \<Rightarrow> int) \<Rightarrow> ('a jrec \<Rightarrow> int)
    \<Rightarrow> ('a jrec \<Rightarrow> pyerror + 'k) \<Rightarrow> 'a jrec \<Rightarrow> pyerror + int" where
  "hash_exportable py_hash py_hash_int py_id index self =
     (case index self of
        Inr i \<Rightarrow> Inr (py_hash i)
      | Inl e \<Rightarrow> if e = NotImplementedError then Inr (py_hash_int (py_id self)) else Inl e)"

text \<open>\<open>__hash__\<close> of \<open>pyutils/exportable.py\<close>: \<open>hash(self.index)\<close>, nothing caught.\<close>

definition hash_pyutils :: "('k \<Rightarrow> int) \<Rightarrow> ('a jrec \<Rightarrow> pyerror + 'k) \<Rightarrow> 'a jrec \<Rightarrow> pyerror + int" where
  "hash_pyutils py_hash index self =
     (case index self of Inr i \<Rightarrow> Inr (py_hash i) | Inl e \<Rightarrow> Inl e)"

text \<open>
  \<open>JSONExportable.transform(cls, in_obj)\<close>. \<open>cls\<close> is the class name,
  \<open>transformations\<close> the class's register (run-time type to conversion; a conversion
  returns an instance or \<open>None\<close>, or raises). The first component of the result is the
  list of exceptions reported through \<open>error(...)\<close>, extended by this call.
\<close>

definition transform :: "string \<Rightarrow> (string \<rightharpoonup> ('a jrec \<Rightarrow> pyerror + 'a jrec option)) \<Rightarrow> pyerror list
    \<Rightarrow> 'a jrec \<Rightarrow> pyerror list \<times> (pyerror + 'a jrec option)" where
  "transform cls transformations reported in_obj =
     (let attempt =
        (if cls_name in_obj = cls then Inr (Some in_obj)
         else (case transformations (cls_name in_obj) of
                 None \<Rightarrow> Inl KeyError
               | Some method \<Rightarrow> method in_obj))
      in case attempt of
           Inr out \<Rightarrow> (reported, Inr out)
         | Inl err \<Rightarrow> if is_Exception err then (reported @ [err], Inr None) else (reported, Inl err))"

text \<open>\<open>transform_many\<close>: the conversions that gave an instance, in order.\<close>

fun transform_many :: "string \<Rightarrow> (string \<rightharpoonup> ('a jrec \<Rightarrow> pyerror + 'a jrec option)) \<Rightarrow> pyerror list
    \<Rightarrow> 'a jrec list \<Rightarrow> pyerror list \<times> (pyerror + 'a jrec list)" where
  "transform_many cls transformations reported [] = (reported, Inr [])"
| "transform_many cls transformations reported (obj # in_objs) =
     (case transform cls transformations reported obj of
        (reported', Inl e) \<Rightarrow> (reported', Inl e)
      | (reported', Inr out) \<Rightarrow>
          (case transform_many cls transformations reported' in_objs of
             (reported'', Inl e) \<Rightarrow> (reported'', Inl e)
           | (reported'', Inr outs) \<Rightarrow>
               (reported'', Inr (case out of None \<Rightarrow> outs | Some x \<Rightarrow> x # outs))))"

section \<open>Keyed collections: class \<open>JSONExportableRootDict\<close>\<close>

text \<open>
  The collection is its \<open>root\<close> dict, kept as an association list in storage (insertion)
  order, and the private attribute \<open>_sorted\<close> (default \<open>True\<close>). A Python dict has no
  duplicate keys: \<open>distinct (keys c)\<close>. Assignment \<open>root[k] = v\<close> is \<open>AList.update\<close>:
  it replaces in place or appends.
\<close>

record ('k, 'a) rootdict =
  root :: "('k \<times> 'a jrec) list"
  sorted_flag :: bool

definition keys :: "('k, 'a) rootdict \<Rightarrow> 'k list" where
  "keys c = map fst (root c)"

definition items :: "('k, 'a) rootdict \<Rightarrow> ('k \<times> 'a jrec) list" where
  "items c = root c"

text \<open>\<open>__iter__\<close>: \<open>sorted(self.keys())\<close> when \<open>_sorted\<close>, else \<open>self.keys()\<close>.\<close>

definition iter :: "('k::linorder, 'a) rootdict \<Rightarrow> 'k list" where
  "iter c = (if sorted_flag c then sort (keys c) else keys c)"

text \<open>\<open>__getitem__\<close>: \<open>self.root[key]\<close>, a \<open>KeyError\<close> when the key is missing.\<close>

definition getitem :: "('k, 'a) rootdict \<Rightarrow> 'k \<Rightarrow> pyerror + 'a jrec" where
  "getitem c key = (case map_of (root c) key of None \<Rightarrow> Inl KeyError | Some v \<Rightarrow> Inr v)"

text \<open>\<open>add\<close>: \<open>self.root[item.index] = item\<close>.\<close>

definition add :: "('a jrec \<Rightarrow> pyerror + 'k) \<Rightarrow> ('k, 'a) rootdict \<Rightarrow> 'a jrec \<Rightarrow> pyerror + ('k, 'a) rootdict" where
  "add index c item =
     (case index item of Inl e \<Rightarrow> Inl e | Inr i \<Rightarrow> Inr (c\<lparr>root := AList.update i item (root c)\<rparr>))"

text \<open>
  \<open>JSONExportableRootDict.update\<close>, step by step. The Python sets \<open>new_ids\<close>,
  \<open>old_ids\<close>, \<open>added\<close> and \<open>updated\<close> are kept as lists of their elements. Python
  iterates a set in an order fixed by the hashes of its elements and by the set's
  history, not in the order of insertion: the parameter \<open>set_order\<close> gives, for the
  elements of a set, the order in which they are iterated (a permutation of its
  argument). Equality of two records as whole values is pydantic's \<open>__eq__\<close>, the
  parameter \<open>eq\<close>. The collection is mutated in place, so each step returns the
  collection as it leaves it, also when it raises.

  \<open>differing\<close> is the comprehension \<open>{key for key in updated if new[key] != self[key]}\<close>,
  over the keys in the order given.
\<close>

fun differing :: "('a jrec \<Rightarrow> 'a jrec \<Rightarrow> bool) \<Rightarrow> ('k, 'a) rootdict \<Rightarrow> ('k, 'a) rootdict \<Rightarrow> 'k list \<Rightarrow> pyerror + 'k list" where
  "differing eq self new [] = Inr []"
| "differing eq self new (key # ks) =
     (case getitem new key of
        Inl e \<Rightarrow> Inl e
      | Inr n \<Rightarrow>
         (case getitem self key of
            Inl e \<Rightarrow> Inl e
          | Inr s \<Rightarrow>
             (case differing eq self new ks of
                Inl e \<Rightarrow> Inl e
              | Inr rest \<Rightarrow> Inr (if \<not> eq n s then key # rest else rest))))"

text \<open>
  The loop \<open>for key in updated\<close>: the record held under the key is updated in place, the
  flag that \<open>update\<close> returns is dropped, and the key is added to \<open>updated_idx\<close>. When
  the record's \<open>update\<close> raises, the record is left as that call left it.
\<close>

fun update_each :: "('a jrec \<Rightarrow> pyerror + 'k) \<Rightarrow> bool \<Rightarrow> ('k, 'a) rootdict \<Rightarrow> 'k list
    \<Rightarrow> ('k, 'a) rootdict \<times> 'k set \<Rightarrow> ('k, 'a) rootdict \<times> (pyerror + 'k set)" where
  "update_each index match_index new [] (self, updated_idx) = (self, Inr updated_idx)"
| "update_each index match_index new (key # ks) (self, updated_idx) =
     (case getitem self key of
        Inl e \<Rightarrow> (self, Inl e)
      | Inr old \<Rightarrow>
         (case getitem new key of
            Inl e \<Rightarrow> (self, Inl e)
          | Inr item \<Rightarrow>
             (case update index old item match_index of
                (old', Inl e) \<Rightarrow> (self\<lparr>root := AList.update key old' (root self)\<rparr>, Inl e)
              | (old', Inr changed) \<Rightarrow>
                  update_each index match_index new ks
                    (self\<lparr>root := AList.update key old' (root self)\<rparr>, insert key updated_idx))))"

text \<open>The loop \<open>for key in added: self.root[key] = new[key]\<close>.\<close>

fun insert_added :: "('k, 'a) rootdict \<Rightarrow> 'k list \<Rightarrow> ('k, 'a) rootdict \<Rightarrow> ('k, 'a) rootdict \<times> pyerror option" where
  "insert_added new [] self = (self, None)"
| "insert_added new (key # ks) self =
     (case getitem new key of
        Inl e \<Rightarrow> (self, Some e)
      | Inr item \<Rightarrow> insert_added new ks (self\<lparr>root := AList.update key item (root self)\<rparr>))"

definition rootdict_update :: "('a jrec \<Rightarrow> 'a jrec \<Rightarrow> bool) \<Rightarrow> ('a jrec \<Rightarrow> pyerror + 'k) \<Rightarrow> ('k list \<Rightarrow> 'k list)
    \<Rightarrow> ('k::linorder, 'a) rootdict \<Rightarrow> ('k, 'a) rootdict \<Rightarrow> bool
    \<Rightarrow> ('k, 'a) rootdict \<times> (pyerror + ('k set \<times> 'k set))" where
  "rootdict_update eq index set_order self new match_index =
     (let new_ids = iter new;
          old_ids = iter self;
          added = filter (\<lambda>key. key \<notin> set old_ids) new_ids;
          updated = filter (\<lambda>key. key \<in> set old_ids) new_ids
      in case differing eq self new (set_order updated) of
           Inl e \<Rightarrow> (self, Inl e)
         | Inr updated \<Rightarrow>
            (case update_each index match_index new (set_order updated) (self, {}) of
               (self1, Inl e) \<Rightarrow> (self1, Inl e)
             | (self1, Inr updated_idx) \<Rightarrow>
                (case insert_added new (set_order added) self1 of
                   (self2, Some e) \<Rightarrow> (self2, Inl e)
                 | (self2, None) \<Rightarrow> (self2, Inr (set added, updated_idx)))))"

text \<open>
  The whole-collection JSON views \<open>json_src\<close> and \<open>json_db\<close> differ only in the member
  method they call (\<open>value.json_src\<close> or \<open>value.json_db\<close>): \<open>member_json\<close>, pydantic's
  serialiser, which may raise. \<open>str_key\<close> is \<open>str(key)\<close>. \<open>collect\<close> is a list
  comprehension whose element expression may raise; \<open>join\<close> is \<open>str.join\<close>.
\<close>

fun collect :: "(pyerror + 'b) list \<Rightarrow> pyerror + 'b list" where
  "collect [] = Inr []"
| "collect (x # xs) =
     (case x of
        Inl e \<Rightarrow> Inl e
      | Inr y \<Rightarrow> (case collect xs of Inl e \<Rightarrow> Inl e | Inr ys \<Rightarrow> Inr (y # ys)))"

fun join :: "string \<Rightarrow> string list \<Rightarrow> string" where
  "join sep [] = []"
| "join sep [x] = x"
| "join sep (x # y # ys) = x @ sep @ join sep (y # ys)"

definition json_entry :: "('k \<Rightarrow> string) \<Rightarrow> ('a jrec \<Rightarrow> pyerror + string) \<Rightarrow> 'k \<Rightarrow> 'a jrec \<Rightarrow> pyerror + string" where
  "json_entry str_key member_json key v =
     (case member_json v of
        Inl e \<Rightarrow> Inl e
      | Inr j \<Rightarrow> Inr ([CHR 0x22] @ str_key key @ [CHR 0x22] @ '': '' @ j))"

definition wrap_entries :: "(pyerror + string) list \<Rightarrow> pyerror + string" where
  "wrap_entries entries =
     (case collect entries of
        Inl e \<Rightarrow> Inl e
      | Inr parts \<Rightarrow> Inr (''{'' @ join ('','' @ [CHR 0x0A]) parts @ ''}''))"

definition rootdict_json :: "('k \<Rightarrow> string) \<Rightarrow> ('a jrec \<Rightarrow> pyerror + string) \<Rightarrow> ('k, 'a) rootdict \<Rightarrow> pyerror + string" where
  "rootdict_json str_key member_json c =
     wrap_entries (map (\<lambda>(key, v). json_entry str_key member_json key v) (items c))"

text \<open>
  The view as the specification describes it, for comparison: the same text with the
  entries emitted in a given order of keys, each member looked up under its key.
\<close>

definition json_in_order :: "('k \<Rightarrow> string) \<Rightarrow> ('a jrec \<Rightarrow> pyerror + string) \<Rightarrow> ('k, 'a) rootdict \<Rightarrow> 'k list \<Rightarrow> pyerror + string" where
  "json_in_order str_key member_json c order =
     wrap_entries (map (\<lambda>key. case getitem c key of
                                 Inl e \<Rightarrow> Inl e
                               | Inr v \<Rightarrow> json_entry str_key member_json key v) order)"

section \<open>Export: \<open>pyutils/exportable.py\<close>\<close>

subsection \<open>Exportable objects\<close>

text \<open>
  A CSV cell is \<open>str | int | bool | None\<close> (a float cell would be one more constructor;
  nothing below computes with cells). \<open>_clear_None\<close> replaces \<open>None\<close> by the empty
  string.
\<close>

datatype cell = CNone | CStr string | CInt int | CBool bool

definition clear_None :: "(string \<times> cell) list \<Rightarrow> (string \<times> cell) list" where
  "clear_None res = map (\<lambda>(key, v). (key, if v = CNone then CStr [] else v)) res"

text \<open>
  \<open>TXTExportable\<close>, \<open>CSVExportable\<close> and \<open>JSONExportable\<close> leave their methods to the
  subclasses. An exportable object is what its methods return or raise: \<open>csv_headers()\<close>,
  \<open>_csv_row()\<close>, \<open>json_src()\<close> and \<open>txt_row(format)\<close>. A method the object's class lacks
  raises \<open>AttributeError\<close>.
\<close>

record exportable =
  csv_headers :: "pyerror + string list"
  csv_row_impl :: "pyerror + (string \<times> cell) list"
  json_src :: "pyerror + string"
  txt_row :: "string \<Rightarrow> pyerror + string"

definition csv_row :: "exportable \<Rightarrow> pyerror + (string \<times> cell) list" where
  "csv_row x = (case csv_row_impl x of Inl e \<Rightarrow> Inl e | Inr res \<Rightarrow> Inr (clear_None res))"

text \<open>
  The CSV writer of \<open>aiocsv\<close> with the \<open>excel\<close> dialect and the builtin \<open>str\<close> on cells
  are parameters: the text \<open>writeheader\<close> writes for the field names, the text
  \<open>writerow\<close> writes for a row or the exception it raises, and \<open>str(cell)\<close>.
\<close>

record csvlib =
  writeheader :: "string list \<Rightarrow> string"
  writerow :: "string list \<Rightarrow> (string \<times> cell) list \<Rightarrow> pyerror + string"
  str_cell :: "cell \<Rightarrow> string"

definition delimiter :: string where
  "delimiter = '',''"

definition linesep :: string where
  "linesep = [CHR 0x0A]"

subsection \<open>The asynchronous iterable\<close>

text \<open>
  What \<open>anext\<close> does, call after call: it yields a record, ends the iteration, or raises
  (a cancellation arrives as \<open>CancelledError\<close>). A finite sequence of records is
  \<open>aiter_of\<close>.
\<close>

datatype 'e aiter = End | Next 'e "'e aiter" | Raise pyerror

fun aiter_of :: "'e list \<Rightarrow> 'e aiter" where
  "aiter_of [] = End"
| "aiter_of (x # xs) = Next x (aiter_of xs)"

text \<open>
  A loop over the iterable (\<open>async for\<close>, or \<open>while exportable is not None\<close> with
  \<open>anext\<close> at the end of the body, entered with the first record already fetched).
  The body returns the state and the exception that leaves it, if any.
\<close>

fun async_for :: "('e \<Rightarrow> 's \<Rightarrow> 's \<times> pyerror option) \<Rightarrow> 'e aiter \<Rightarrow> 's \<Rightarrow> 's \<times> pyerror option" where
  "async_for body End st = (st, None)"
| "async_for body (Raise e) st = (st, Some e)"
| "async_for body (Next x rest) st =
     (case body x st of
        (st', Some e) \<Rightarrow> (st', Some e)
      | (st', None) \<Rightarrow> async_for body rest st')"

subsection \<open>Counters\<close>

text \<open>
  Modelled from the spec: \<open>EventCounter\<close> (module \<open>eventcounter\<close>, not among the
  sources). \<open>log(category)\<close> increments a named counter; \<open>merge_child(other)\<close> folds
  another counter's tallies into this one, preserving category names.
\<close>

record eventcounter =
  counter_name :: string
  counts :: "string \<Rightarrow> nat"

definition EventCounter :: "string \<Rightarrow> eventcounter" where
  "EventCounter name = \<lparr>counter_name = name, counts = (\<lambda>_. 0)\<rparr>"

definition log :: "eventcounter \<Rightarrow> string \<Rightarrow> eventcounter" where
  "log stats category = stats\<lparr>counts := (counts stats)(category := Suc (counts stats category))\<rparr>"

definition merge_child :: "eventcounter \<Rightarrow> eventcounter \<Rightarrow> eventcounter" where
  "merge_child stats child = stats\<lparr>counts := (\<lambda>category. counts stats category + counts child category)\<rparr>"

subsection \<open>Files, standard output and the error log\<close>

text \<open>
  The world an export acts on: the file system (a regular file is the list of the texts
  written to it), the lines printed, and the exceptions reported through \<open>error(...)\<close>.
  Debug messages are not kept. The operating system may refuse an operation:
  \<open>open_fails w filename m\<close> is the exception raised, if any, by opening the file in the
  mode, \<open>write_fails w filename content text\<close> the one raised by writing the text to the
  file that holds the content, and \<open>print_fails w printed line\<close> the one raised by
  printing the line after the lines printed. A refused operation changes nothing.
\<close>

datatype fsnode = RegularFile "string list" | Directory

datatype mode = ModeW | ModeA

record world =
  files :: "string \<Rightarrow> fsnode option"
  stdout :: "string list"
  errlog :: "pyerror list"
  open_fails :: "string \<Rightarrow> mode \<Rightarrow> pyerror option"
  write_fails :: "string \<Rightarrow> string list \<Rightarrow> string \<Rightarrow> pyerror option"
  print_fails :: "string list \<Rightarrow> string \<Rightarrow> pyerror option"

definition isfile :: "world \<Rightarrow> string \<Rightarrow> bool" where
  "isfile w filename = (case files w filename of Some (RegularFile _) \<Rightarrow> True | _ \<Rightarrow> False)"

definition exists :: "world \<Rightarrow> string \<Rightarrow> bool" where
  "exists w filename = (files w filename \<noteq> None)"

text \<open>\<open>open(filename, mode)\<close>: mode \<open>w\<close> truncates, mode \<open>a\<close> keeps what the file holds.\<close>

definition open_file :: "string \<Rightarrow> mode \<Rightarrow> world \<Rightarrow> pyerror + world" where
  "open_file filename m w =
     (case open_fails w filename m of
        Some e \<Rightarrow> Inl e
      | None \<Rightarrow>
         (case m of
            ModeW \<Rightarrow> Inr (w\<lparr>files := (files w)(filename \<mapsto> RegularFile [])\<rparr>)
          | ModeA \<Rightarrow>
             (case files w filename of
                Some (RegularFile _) \<Rightarrow> Inr w
              | _ \<Rightarrow> Inr (w\<lparr>files := (files w)(filename \<mapsto> RegularFile [])\<rparr>))))"

text \<open>
  A write through the handle of an open file. The file is regular once it is open; the
  last case is never reached by the export functions.
\<close>

definition write_file :: "string \<Rightarrow> string \<Rightarrow> world \<Rightarrow> pyerror + world" where
  "write_file filename text w =
     (case files w filename of
        Some (RegularFile content) \<Rightarrow>
          (case write_fails w filename content text of
             Some e \<Rightarrow> Inl e
           | None \<Rightarrow> Inr (w\<lparr>files := (files w)(filename \<mapsto> RegularFile (content @ [text]))\<rparr>))
      | _ \<Rightarrow> Inl OSError)"

definition print :: "string \<Rightarrow> world \<Rightarrow> pyerror + world" where
  "print line w =
     (case print_fails w (stdout w) line of
        Some e \<Rightarrow> Inl e
      | None \<Rightarrow> Inr (w\<lparr>stdout := stdout w @ [line]\<rparr>))"

definition error :: "pyerror \<Rightarrow> world \<Rightarrow> world" where
  "error err w = w\<lparr>errlog := errlog w @ [err]\<rparr>"

subsection \<open>Strings\<close>

definition lower_char :: "char \<Rightarrow> char" where
  "lower_char c =
     (case map_of (zip ''ABCDEFGHIJKLMNOPQRSTUVWXYZ'' ''abcdefghijklmnopqrstuvwxyz'') c of
        Some d \<Rightarrow> d
      | None \<Rightarrow> c)"

definition lower :: "string \<Rightarrow> string" where
  "lower s = map lower_char s"

definition endswith :: "string \<Rightarrow> string \<Rightarrow> bool" where
  "endswith s suffix = (length suffix \<le> length s \<and> drop (length s - length suffix) s = suffix)"

subsection \<open>Handlers\<close>

text \<open>
  A block's outcome is the state it leaves and the exception that escapes it, if any.
  \<open>except_CancelledError\<close> is the clause \<open>except CancelledError: debug(...)\<close>;
  \<open>except_Exception\<close> is the clause \<open>except Exception as err: error(f"{err}")\<close> of the
  three export functions.
\<close>

definition except_CancelledError :: "'s \<times> pyerror option \<Rightarrow> 's \<times> pyerror option" where
  "except_CancelledError r =
     (case r of
        (st, Some e) \<Rightarrow> if e = CancelledError then (st, None) else (st, Some e)
      | (st, None) \<Rightarrow> (st, None))"

definition except_Exception :: "(world \<times> eventcounter) \<times> pyerror option \<Rightarrow> (world \<times> eventcounter) \<times> pyerror option" where
  "except_Exception r =
     (case r of
        ((w, stats), Some e) \<Rightarrow> if is_Exception e then ((error e w, stats), None) else ((w, stats), Some e)
      | ((w, stats), None) \<Rightarrow> ((w, stats), None))"

text \<open>
  The body of the row loops that catch every \<open>Exception\<close>: the row is rendered and
  emitted and \<open>rows\<close> is counted, or the exception of the rendering or of the write is
  reported and \<open>errors\<close> is counted (\<open>row_except\<close>); an exception that is no
  \<open>Exception\<close> leaves the loop.
\<close>

definition row_except :: "pyerror \<Rightarrow> world \<times> eventcounter \<Rightarrow> (world \<times> eventcounter) \<times> pyerror option" where
  "row_except err st =
     (case st of (w, stats) \<Rightarrow>
        if is_Exception err then ((error err w, log stats ''errors''), None)
        else ((w, stats), Some err))"

definition row_step :: "(pyerror + string) \<Rightarrow> (string \<Rightarrow> world \<Rightarrow> pyerror + world) \<Rightarrow> world \<times> eventcounter
    \<Rightarrow> (world \<times> eventcounter) \<times> pyerror option" where
  "row_step rendered emit st =
     (case st of (w, stats) \<Rightarrow>
        (case rendered of
           Inl err \<Rightarrow> row_except err (w, stats)
         | Inr text \<Rightarrow>
            (case emit text w of
               Inl err \<Rightarrow> row_except err (w, stats)
             | Inr w' \<Rightarrow> ((w', log stats ''rows''), None))))"

text \<open>
  The test \<open>exists(filename) and (not file_exists or not (force or append))\<close>. The
  parameter \<open>append\<close> is written \<open>append'\<close> throughout.
\<close>

definition destination_conflict :: "world \<Rightarrow> string \<Rightarrow> bool \<Rightarrow> bool \<Rightarrow> bool" where
  "destination_conflict w filename force append' =
     (exists w filename \<and> (\<not> isfile w filename \<or> \<not> (force \<or> append')))"

text \<open>\<open>if not filename.lower().endswith(ext): filename = f"{filename}.{ext}"\<close>.\<close>

definition with_suffix :: "string \<Rightarrow> string \<Rightarrow> string" where
  "with_suffix filename ext = (if \<not> endswith (lower filename) ext then filename @ ''.'' @ ext else filename)"

subsection \<open>\<open>export_csv\<close>\<close>

text \<open>The line printed for a row on standard output: \<open>str(row[key])\<close> for each field name (the local \<open>fields\<close>).\<close>

definition csv_stdout_line :: "csvlib \<Rightarrow> string list \<Rightarrow> exportable \<Rightarrow> pyerror + string" where
  "csv_stdout_line lib fieldnames x =
     (case csv_row x of
        Inl e \<Rightarrow> Inl e
      | Inr row \<Rightarrow>
         (case collect (map (\<lambda>key. case map_of row key of
                                       None \<Rightarrow> Inl KeyError
                                     | Some c \<Rightarrow> Inr (str_cell lib c)) fieldnames) of
            Inl e \<Rightarrow> Inl e
          | Inr cells \<Rightarrow> Inr (join delimiter cells)))"

text \<open>
  The body of the loop on standard output, which catches \<open>KeyError\<close> only
  (\<open>csv_stdout_except\<close>); any other exception leaves the loop.
\<close>

definition csv_stdout_except :: "pyerror \<Rightarrow> world \<times> eventcounter \<Rightarrow> (world \<times> eventcounter) \<times> pyerror option" where
  "csv_stdout_except err st =
     (case st of (w, stats) \<Rightarrow>
        if err = KeyError then ((error err w, log stats ''errors''), None)
        else ((w, stats), Some err))"

definition csv_stdout_step :: "csvlib \<Rightarrow> string list \<Rightarrow> exportable \<Rightarrow> world \<times> eventcounter
    \<Rightarrow> (world \<times> eventcounter) \<times> pyerror option" where
  "csv_stdout_step lib fieldnames x st =
     (case st of (w, stats) \<Rightarrow>
        (case csv_stdout_line lib fieldnames x of
           Inl err \<Rightarrow> csv_stdout_except err (w, stats)
         | Inr line \<Rightarrow>
            (case print line w of
               Inl err \<Rightarrow> csv_stdout_except err (w, stats)
             | Inr w' \<Rightarrow> ((w', log stats ''rows''), None))))"

text \<open>The text written for a row to the file: \<open>writer.writerow(exportable.csv_row())\<close>.\<close>

definition csv_file_line :: "csvlib \<Rightarrow> string list \<Rightarrow> exportable \<Rightarrow> pyerror + string" where
  "csv_file_line lib fieldnames x =
     (case csv_row x of Inl e \<Rightarrow> Inl e | Inr row \<Rightarrow> writerow lib fieldnames row)"

text \<open>The \<open>try\<close> block of \<open>export_csv\<close>.\<close>

definition export_csv_body :: "csvlib \<Rightarrow> exportable aiter \<Rightarrow> string \<Rightarrow> bool \<Rightarrow> bool \<Rightarrow> world \<times> eventcounter
    \<Rightarrow> (world \<times> eventcounter) \<times> pyerror option" where
  "export_csv_body lib iterable filename force append' st =
     (case st of (w, stats) \<Rightarrow>
        (case iterable of
           Raise e \<Rightarrow> ((w, stats), Some e)
         | End \<Rightarrow> ((w, stats), None)
         | Next exportable rest \<Rightarrow>
            (case csv_headers exportable of
               Inl e \<Rightarrow> ((w, stats), Some e)
             | Inr fieldnames \<Rightarrow>
                if filename = ''-'' then
                  except_CancelledError
                    (case print (join delimiter fieldnames) w of
                       Inl e \<Rightarrow> ((w, stats), Some e)
                     | Inr w1 \<Rightarrow> async_for (csv_stdout_step lib fieldnames) iterable (w1, stats))
                else
                  (let filename = with_suffix filename ''csv'';
                       file_exists = isfile w filename
                   in if destination_conflict w filename force append' then ((w, stats), Some FileExistsError)
                      else
                        (let m = (if append' \<and> file_exists then ModeA else ModeW);
                             append' = (if append' \<and> file_exists then append' else False)
                         in case open_file filename m w of
                              Inl e \<Rightarrow> ((w, stats), Some e)
                            | Inr w1 \<Rightarrow>
                               except_CancelledError
                                 (case (if \<not> append' then write_file filename (writeheader lib fieldnames) w1
                                        else Inr w1) of
                                    Inl e \<Rightarrow> ((w1, stats), Some e)
                                  | Inr w2 \<Rightarrow>
                                     async_for (\<lambda>x. row_step (csv_file_line lib fieldnames x) (write_file filename))
                                       iterable (w2, stats)))))))"

definition export_csv :: "csvlib \<Rightarrow> exportable aiter \<Rightarrow> string \<Rightarrow> bool \<Rightarrow> bool \<Rightarrow> world
    \<Rightarrow> world \<times> (pyerror + eventcounter)" where
  "export_csv lib iterable filename force append' w =
     (if length filename = 0 then (w, Inl AssertionError)
      else
        (case except_Exception (export_csv_body lib iterable filename force append' (w, EventCounter ''CSV'')) of
           ((w', stats), None) \<Rightarrow> (w', Inr stats)
         | ((w', stats), Some e) \<Rightarrow> (w', Inl e)))"

subsection \<open>\<open>export_json\<close> and \<open>export_txt\<close>\<close>

definition json_line :: "exportable \<Rightarrow> pyerror + string" where
  "json_line x = (case json_src x of Inl e \<Rightarrow> Inl e | Inr s \<Rightarrow> Inr (s @ linesep))"

definition export_json_body :: "exportable aiter \<Rightarrow> string \<Rightarrow> bool \<Rightarrow> bool \<Rightarrow> world \<times> eventcounter
    \<Rightarrow> (world \<times> eventcounter) \<times> pyerror option" where
  "export_json_body iterable filename force append' st =
     (case st of (w, stats) \<Rightarrow>
        if filename = ''-'' then
          async_for (\<lambda>x. row_step (json_src x) print) iterable (w, stats)
        else
          (let filename = with_suffix filename ''json'';
               file_exists = isfile w filename
           in if destination_conflict w filename force append' then ((w, stats), Some FileExistsError)
              else
                (let m = (if append' \<and> file_exists then ModeA else ModeW)
                 in case open_file filename m w of
                      Inl e \<Rightarrow> ((w, stats), Some e)
                    | Inr w1 \<Rightarrow>
                       async_for (\<lambda>x. row_step (json_line x) (write_file filename)) iterable (w1, stats))))"

definition export_json :: "exportable aiter \<Rightarrow> string \<Rightarrow> bool \<Rightarrow> bool \<Rightarrow> world
    \<Rightarrow> world \<times> (pyerror + eventcounter)" where
  "export_json iterable filename force append' w =
     (if length filename = 0 then (w, Inl AssertionError)
      else
        (case except_Exception (except_CancelledError
                (export_json_body iterable filename force append' (w, EventCounter ''JSON''))) of
           ((w', stats), None) \<Rightarrow> (w', Inr stats)
         | ((w', stats), Some e) \<Rightarrow> (w', Inl e)))"

definition txt_line :: "exportable \<Rightarrow> pyerror + string" where
  "txt_line x = (case txt_row x [] of Inl e \<Rightarrow> Inl e | Inr s \<Rightarrow> Inr (s @ linesep))"

definition export_txt_body :: "exportable aiter \<Rightarrow> string \<Rightarrow> bool \<Rightarrow> bool \<Rightarrow> world \<times> eventcounter
    \<Rightarrow> (world \<times> eventcounter) \<times> pyerror option" where
  "export_txt_body iterable filename force append' st =
     (case st of (w, stats) \<Rightarrow>
        if filename = ''-'' then
          async_for (\<lambda>x. row_step (txt_row x ''rich'') print) iterable (w, stats)
        else
          (let filename = with_suffix filename ''txt'';
               file_exists = isfile w filename
           in if destination_conflict w filename force append' then ((w, stats), Some FileExistsError)
              else
                (let m = (if append' \<and> file_exists then ModeA else ModeW)
                 in case open_file filename m w of
                      Inl e \<Rightarrow> ((w, stats), Some e)
                    | Inr w1 \<Rightarrow>
                       async_for (\<lambda>x. row_step (txt_line x) (write_file filename)) iterable (w1, stats))))"

definition export_txt :: "exportable aiter \<Rightarrow> string \<Rightarrow> bool \<Rightarrow> bool \<Rightarrow> world
    \<Rightarrow> world \<times> (pyerror + eventcounter)" where
  "export_txt iterable filename force append' w =
     (if length filename = 0 then (w, Inl AssertionError)
      else
        (case except_Exception (except_CancelledError
                (export_txt_body iterable filename force append' (w, EventCounter ''Text''))) of
           ((w', stats), None) \<Rightarrow> (w', Inr stats)
         | ((w', stats), Some e) \<Rightarrow> (w', Inl e)))"

subsection \<open>\<open>export\<close>\<close>

definition EXPORT_FORMATS :: "string list" where
  "EXPORT_FORMATS = [''txt'', ''json'', ''csv'']"

text \<open>\<open>get_args(EXPORT_FORMAT)\<close>, the members of the \<open>Literal\<close> type.\<close>

definition EXPORT_FORMAT_args :: "string list" where
  "EXPORT_FORMAT_args = [''txt'', ''json'', ''csv'']"

text \<open>The first block of \<open>export\<close>: the format after the loop over \<open>EXPORT_FORMATS\<close>.\<close>

definition resolve_format :: "string \<Rightarrow> string \<Rightarrow> string" where
  "resolve_format format filename =
     (if filename \<noteq> ''-'' then
        fold (\<lambda>export_format format.
                if endswith filename export_format \<and> export_format \<in> set EXPORT_FORMAT_args
                then export_format else format)
             EXPORT_FORMATS format
      else format)"

text \<open>\<open>stats.merge_child(await export_...(...))\<close>: the callee's exception passes through.\<close>

definition merge_result :: "eventcounter \<Rightarrow> world \<times> (pyerror + eventcounter) \<Rightarrow> (world \<times> eventcounter) \<times> pyerror option" where
  "merge_result stats r =
     (case r of
        (w', Inr child) \<Rightarrow> ((w', merge_child stats child), None)
      | (w', Inl e) \<Rightarrow> ((w', stats), Some e))"

text \<open>
  \<open>export\<close>. The clause \<open>except Exception\<close> counts \<open>errors\<close> and reports the exception;
  \<open>finally: return stats\<close> returns the counter on every path, also when an exception that
  is no \<open>Exception\<close> is on its way, which it discards. The result type keeps the
  exception side to show that it is never taken.
\<close>

definition export :: "csvlib \<Rightarrow> exportable aiter \<Rightarrow> string \<Rightarrow> string \<Rightarrow> bool \<Rightarrow> bool \<Rightarrow> world
    \<Rightarrow> world \<times> (pyerror + eventcounter)" where
  "export lib iterable format filename force append' w =
     (let stats = EventCounter ''write'';
          format = resolve_format format filename;
          attempt =
            (if format = ''txt'' then merge_result stats (export_txt iterable filename force append' w)
             else if format = ''json'' then merge_result stats (export_json iterable filename force append' w)
             else if format = ''csv'' then merge_result stats (export_csv lib iterable filename force append' w)
             else ((w, stats), Some ValueError))
      in case attempt of
           ((w', stats'), None) \<Rightarrow> (w', Inr stats')
         | ((w', stats'), Some e) \<Rightarrow>
             if is_Exception e then (error e w', Inr (log stats' ''errors''))
             else (w', Inr stats'))"

section \<open>Concrete records and collections\<close>

text \<open>
  A subclass \<open>Item\<close> with the fields \<open>id\<close>, \<open>name\<close> and \<open>child\<close>, whose index is the
  field \<open>id\<close>; a class with no such field has no index. Atoms are integers here.
\<close>

definition id_index :: "int jrec \<Rightarrow> pyerror + int" where
  "id_index self = (case map_of (dict self) ''id'' of Some (Atom i) \<Rightarrow> Inr i | _ \<Rightarrow> Inl NotImplementedError)"

text \<open>
  Pydantic's \<open>BaseModel.__eq__\<close> on flat records: the same class and the same field
  values; \<open>model_fields_set\<close> is not compared.
\<close>

definition model_eq :: "int jrec \<Rightarrow> int jrec \<Rightarrow> bool" where
  "model_eq x y = (cls_name x = cls_name y \<and> dict x = dict y)"

definition ex_item1 :: "int jrec" where
  "ex_item1 = JRec ''Item'' [(''id'', Atom 1), (''name'', Atom 10)] [''id'', ''name'']"

definition ex_item2 :: "int jrec" where
  "ex_item2 = JRec ''Item'' [(''id'', Atom 2), (''name'', Atom 20)] [''id'', ''name'']"

definition ex_plain :: "int jrec" where
  "ex_plain = JRec ''Plain'' [(''x'', Atom 3)] [''x'']"

text \<open>
  \<open>ex_a\<close> holds a nested record; \<open>ex_b\<close> has the same index, sets \<open>id\<close> and \<open>child\<close>
  (the child sets only \<open>x\<close>) and leaves \<open>name\<close> unset at its default.
\<close>

definition ex_a :: "int jrec" where
  "ex_a = JRec ''Item''
     [(''id'', Atom 1), (''name'', Atom 10),
      (''child'', Rec (JRec ''Sub'' [(''id'', Atom 7), (''x'', Atom 0)] [''id'', ''x'']))]
     [''id'', ''name'', ''child'']"

definition ex_b :: "int jrec" where
  "ex_b = JRec ''Item''
     [(''id'', Atom 1), (''name'', Atom 0),
      (''child'', Rec (JRec ''Sub'' [(''id'', Atom 7), (''x'', Atom 5)] [''x'']))]
     [''id'', ''child'']"

definition ex_a_merged :: "int jrec" where
  "ex_a_merged = JRec ''Item''
     [(''id'', Atom 1), (''name'', Atom 10),
      (''child'', Rec (JRec ''Sub'' [(''id'', Atom 7), (''x'', Atom 5)] [''id'', ''x'']))]
     [''id'', ''name'', ''child'']"

text \<open>
  \<open>ex_pa\<close> and \<open>ex_pb\<close> have the same index and each holds a child of the class
  \<open>Plain\<close>, which defines no index; \<open>ex_pb\<close> sets \<open>name\<close> and \<open>child\<close>.
  \<open>ex_pa_half\<close> is \<open>ex_pa\<close> with \<open>name\<close> overwritten and the child as it was.
\<close>

definition ex_pa :: "int jrec" where
  "ex_pa = JRec ''Item''
     [(''id'', Atom 1), (''name'', Atom 10), (''child'', Rec (JRec ''Plain'' [(''x'', Atom 3)] [''x'']))]
     [''id'', ''name'', ''child'']"

definition ex_pb :: "int jrec" where
  "ex_pb = JRec ''Item''
     [(''id'', Atom 1), (''name'', Atom 20), (''child'', Rec (JRec ''Plain'' [(''x'', Atom 5)] [''x'']))]
     [''name'', ''child'']"

definition ex_pa_half :: "int jrec" where
  "ex_pa_half = JRec ''Item''
     [(''id'', Atom 1), (''name'', Atom 20), (''child'', Rec (JRec ''Plain'' [(''x'', Atom 3)] [''x'']))]
     [''id'', ''name'', ''child'']"

text \<open>
  \<open>ex_old_item\<close> is stored under key 0; \<open>ex_default_item\<close> is an \<open>Item\<close> built from the
  defaults alone (\<open>id = 0\<close>, \<open>name = 0\<close>), so nothing is explicitly set on it.
\<close>

definition ex_old_item :: "int jrec" where
  "ex_old_item = JRec ''Item'' [(''id'', Atom 0), (''name'', Atom 10)] [''id'', ''name'']"

definition ex_default_item :: "int jrec" where
  "ex_default_item = JRec ''Item'' [(''id'', Atom 0), (''name'', Atom 0)] []"

definition ex_self :: "(int, int) rootdict" where
  "ex_self = \<lparr>root = [(0, ex_old_item)], sorted_flag = True\<rparr>"

definition ex_new :: "(int, int) rootdict" where
  "ex_new = \<lparr>root = [(0, ex_default_item)], sorted_flag = True\<rparr>"

text \<open>A collection filled in the order 2, 1, in the default sorted mode, and the same unsorted.\<close>

definition ex_unordered :: "(int, int) rootdict" where
  "ex_unordered = \<lparr>root = [(2, ex_item2), (1, ex_item1)], sorted_flag = True\<rparr>"

definition ex_unsorted_mode :: "(int, int) rootdict" where
  "ex_unsorted_mode = \<lparr>root = [(2, ex_item2), (1, ex_item1)], sorted_flag = False\<rparr>"

definition ex_str :: "int \<Rightarrow> string" where
  "ex_str k = (if k = 1 then ''1'' else if k = 2 then ''2'' else ''0'')"

definition ex_member_json :: "int jrec \<Rightarrow> pyerror + string" where
  "ex_member_json v = Inr (if v = ex_item1 then ''{1}'' else ''{2}'')"

text \<open>
  For stating what an export leaves behind. A row loop that isolates failures turns a
  sequence of records into the texts it emits, in order (\<open>rows_written\<close>), and the
  exceptions it reports, in order (\<open>rows_failed\<close>): a record whose rendering raises, or
  whose text the destination refuses after what it holds so far, adds its exception and
  nothing else. \<open>initial_content\<close> is what a destination file holds right after it is
  opened (its old content in append mode, nothing otherwise).
\<close>

fun rows_written :: "(string list \<Rightarrow> string \<Rightarrow> pyerror option) \<Rightarrow> ('e \<Rightarrow> pyerror + string) \<Rightarrow> 'e list
    \<Rightarrow> string list \<Rightarrow> string list" where
  "rows_written fails render [] content = []"
| "rows_written fails render (x # xs) content =
     (case render x of
        Inl e \<Rightarrow> rows_written fails render xs content
      | Inr t \<Rightarrow>
         (case fails content t of
            Some e \<Rightarrow> rows_written fails render xs content
          | None \<Rightarrow> t # rows_written fails render xs (content @ [t])))"

fun rows_failed :: "(string list \<Rightarrow> string \<Rightarrow> pyerror option) \<Rightarrow> ('e \<Rightarrow> pyerror + string) \<Rightarrow> 'e list
    \<Rightarrow> string list \<Rightarrow> pyerror list" where
  "rows_failed fails render [] content = []"
| "rows_failed fails render (x # xs) content =
     (case render x of
        Inl e \<Rightarrow> e # rows_failed fails render xs content
      | Inr t \<Rightarrow>
         (case fails content t of
            Some e \<Rightarrow> e # rows_failed fails render xs content
          | None \<Rightarrow> rows_failed fails render xs (content @ [t])))"

definition initial_content :: "world \<Rightarrow> string \<Rightarrow> bool \<Rightarrow> string list" where
  "initial_content w filename append' =
     (case files w filename of
        Some (RegularFile content) \<Rightarrow> if append' then content else []
      | _ \<Rightarrow> [])"

text \<open>
  A CSV library that joins the cells with the delimiter, records with one column
  \<open>name\<close>, a record that fails to render, a sequence of five records whose third fails,
  an empty world and a world in which \<open>out.csv\<close> exists; in both the operating system
  refuses nothing.
\<close>

definition ex_str_cell :: "cell \<Rightarrow> string" where
  "ex_str_cell c = (case c of CStr s \<Rightarrow> s | _ \<Rightarrow> [])"

definition ex_lib :: csvlib where
  "ex_lib = \<lparr>writeheader = (\<lambda>fieldnames. join delimiter fieldnames @ linesep),
             writerow = (\<lambda>fieldnames row. Inr (join delimiter (map (\<lambda>key. case map_of row key of
                                                                    Some c \<Rightarrow> ex_str_cell c
                                                                  | None \<Rightarrow> []) fieldnames) @ linesep)),
             str_cell = ex_str_cell\<rparr>"

definition ex_row :: "string \<Rightarrow> exportable" where
  "ex_row s = \<lparr>csv_headers = Inr [''name''], csv_row_impl = Inr [(''name'', CStr s)],
              json_src = Inr s, txt_row = (\<lambda>_. Inr s)\<rparr>"

definition ex_bad :: exportable where
  "ex_bad = \<lparr>csv_headers = Inr [''name''], csv_row_impl = Inl ValueError,
             json_src = Inl ValueError, txt_row = (\<lambda>_. Inl ValueError)\<rparr>"

definition ex_five :: "exportable list" where
  "ex_five = [ex_row ''1'', ex_row ''2'', ex_bad, ex_row ''4'', ex_row ''5'']"

definition ex_empty_world :: world where
  "ex_empty_world = \<lparr>files = Map.empty, stdout = [], errlog = [],
     open_fails = (\<lambda>_ _. None), write_fails = (\<lambda>_ _ _. None), print_fails = (\<lambda>_ _. None)\<rparr>"

definition ex_world :: world where
  "ex_world = \<lparr>files = [''out.csv'' \<mapsto> RegularFile [''old'']], stdout = [], errlog = [],
     open_fails = (\<lambda>_ _. None), write_fails = (\<lambda>_ _ _. None), print_fails = (\<lambda>_ _. None)\<rparr>"

section \<open>Properties of records\<close>

text \<open>
  Claim C2. When \<open>a.update(b, match_index=True)\<close> is called on two records whose indexes
  both exist and differ, the call raises nothing, returns \<open>False\<close> and leaves \<open>a\<close> as it
  was.
\<close>

theorem update_index_mismatch_noop:
  assumes "index a = Inr i" and "index b = Inr j" and "i \<noteq> j"
  shows "update index a b True = (a, Inr False)"
  using assms by simp

text \<open>
  Claim C8. For a record whose class defines no index (reading \<open>index\<close> raises
  \<open>NotImplementedError\<close>): \<open>__hash__\<close> of \<open>pyutils\<close> raises \<open>NotImplementedError\<close>;
  \<open>__hash__\<close> of \<open>pydantic_exportables\<close> catches it and returns the hash of the object's
  \<open>id\<close>; \<open>update\<close> with \<open>match_index=True\<close> raises \<open>NotImplementedError\<close>, whether the
  record is the receiver or, with a receiver that has an index, the argument, and leaves
  the receiver as it was.
\<close>

theorem no_index_not_implemented:
  assumes "index r = Inl NotImplementedError"
  shows "hash_pyutils py_hash index r = Inl NotImplementedError
       \<and> hash_exportable py_hash py_hash_int py_id index r = Inr (py_hash_int (py_id r))
       \<and> update index r b True = (r, Inl NotImplementedError)
       \<and> (index a = Inr i \<longrightarrow> update index a r True = (a, Inl NotImplementedError))"
  using assms by (simp add: hash_pyutils_def hash_exportable_def)

text \<open>
  Claim C10. \<open>cls.transform(in_obj)\<close> on an object whose run-time type is \<open>cls\<close> returns
  the object itself, whatever the register holds (also a conversion registered for
  \<open>cls\<close>), and reports no error.
\<close>

theorem transform_same_class_identity:
  "transform (cls_name in_obj) transformations reported in_obj = (reported, Inr (Some in_obj))"
  by (simp add: transform_def)


theorem update_index_mismatch_noop_witness:
  "id_index ex_item1 = Inr 1 \<and> id_index ex_item2 = Inr 2
   \<and> update id_index ex_item1 ex_item2 True = (ex_item1, Inr False)"
proof -
  have a: "id_index ex_item1 = Inr 1" by (simp add: id_index_def ex_item1_def)
  have b: "id_index ex_item2 = Inr 2" by (simp add: id_index_def ex_item2_def)
  have c: "(1::int) \<noteq> 2" by simp
  from update_index_mismatch_noop [OF a b c] a b show ?thesis by simp
qed

theorem no_index_not_implemented_witness:
  "id_index ex_plain = Inl NotImplementedError
   \<and> hash_pyutils (\<lambda>k. k) id_index ex_plain = Inl NotImplementedError
   \<and> hash_exportable (\<lambda>k. k) (\<lambda>n. n) (\<lambda>_. 140) id_index ex_plain = Inr 140
   \<and> update id_index ex_plain ex_item1 True = (ex_plain, Inl NotImplementedError)
   \<and> update id_index ex_item1 ex_plain True = (ex_item1, Inl NotImplementedError)"
proof -
  have a: "id_index ex_plain = Inl NotImplementedError" by (simp add: id_index_def ex_plain_def)
  have b: "id_index ex_item1 = Inr 1" by (simp add: id_index_def ex_item1_def)
  from no_index_not_implemented [where index = id_index and r = ex_plain and py_hash = "\<lambda>k. k"
      and py_hash_int = "\<lambda>n. n" and py_id = "\<lambda>_. 140" and b = ex_item1 and a = ex_item1 and i = 1, OF a] a b
  show ?thesis by simp
qed

subsection \<open>What \<open>update\<close> does to each field\<close>

lemma getattr_set_skip_validation:
  "getattr (set_skip_validation self key v) k = (if k = key then Inr v else getattr self k)"
  by (simp add: getattr_def set_skip_validation_def update_conv')

lemma getattr_store_nested:
  "getattr (store_nested self key old) k = (if k = key then Inr (Rec old) else getattr self k)"
  by (simp add: getattr_def store_nested_def update_conv')

lemma step_returns_cong:
  "getattr s1 k = getattr s k \<Longrightarrow> step_returns index m s1 new k = step_returns index m s new k"
  by (simp add: step_returns_def)

text \<open>One turn of the loop: it raises, it merges a nested record, or it overwrites.\<close>

lemma update_fields_Cons_cases [consumes 1, case_names raise nested flat]:
  assumes "update_fields index m new (key # ks) (self, u) = (self', r)"
  obtains
    (raise) e where "r = Inl e"
      and "\<forall>k. k \<noteq> key \<longrightarrow> getattr self' k = getattr self k"
      and "fields_set self' = fields_set self"
      and "\<not> step_returns index m self new key"
  | (nested) v old old' c where "getattr new key = Inr (Rec v)"
      and "getattr self key = Inr (Rec old)"
      and "update index old v m = (old', Inr c)"
      and "update_fields index m new ks (store_nested self key old', if c then True else u) = (self', r)"
      and "step_returns index m self new key"
  | (flat) nv where "getattr new key = Inr nv"
      and "\<nexists>v old. nv = Rec v \<and> getattr self key = Inr (Rec old)"
      and "update_fields index m new ks (set_skip_validation self key nv, True) = (self', r)"
      and "step_returns index m self new key"
proof (cases "getattr new key")
  case (Inl e)
  with assms have "r = Inl e" and "self' = self" by simp_all
  moreover have "\<not> step_returns index m self new key"
    using Inl by (simp add: step_returns_def)
  ultimately show ?thesis by (intro raise [of e]) simp_all
next
  case nv: (Inr nv)
  show ?thesis
  proof (cases nv)
    case (Atom x)
    with assms nv
    have "update_fields index m new ks (set_skip_validation self key nv, True) = (self', r)"
      by simp
    moreover have "step_returns index m self new key"
      using nv Atom by (simp add: step_returns_def)
    ultimately show ?thesis using nv Atom by (intro flat [of nv]) simp_all
  next
    case (Rec v)
    show ?thesis
    proof (cases "getattr self key")
      case (Inl e)
      with assms nv Rec have "r = Inl e" and "self' = self" by simp_all
      moreover have "\<not> step_returns index m self new key"
        using nv Rec Inl by (simp add: step_returns_def)
      ultimately show ?thesis by (intro raise [of e]) simp_all
    next
      case ov: (Inr ov)
      show ?thesis
      proof (cases ov)
        case (Atom x)
        with assms nv Rec ov
        have "update_fields index m new ks (set_skip_validation self key nv, True) = (self', r)"
          by simp
        moreover have "step_returns index m self new key"
          using nv Rec ov Atom by (simp add: step_returns_def)
        ultimately show ?thesis using nv Rec ov Atom by (intro flat [of nv]) simp_all
      next
        case old: (Rec old)
        obtain old' ro where n: "update index old v m = (old', ro)"
          by (cases "update index old v m") auto
        show ?thesis
        proof (cases ro)
          case (Inl e)
          with assms nv Rec ov old n have r: "r = Inl e" and s: "self' = store_nested self key old'"
            by simp_all
          have g: "\<forall>k. k \<noteq> key \<longrightarrow> getattr self' k = getattr self k"
            by (simp add: s getattr_store_nested)
          have f: "fields_set self' = fields_set self"
            by (simp add: s store_nested_def)
          have "\<not> step_returns index m self new key"
            using nv Rec ov old n Inl by (simp add: step_returns_def)
          with r g f show ?thesis
            by (intro raise [of e])
        next
          case (Inr c)
          with assms nv Rec ov old n
          have "update_fields index m new ks (store_nested self key old', if c then True else u) = (self', r)"
            by simp
          moreover have "step_returns index m self new key"
            using nv Rec ov old n Inr by (simp add: step_returns_def)
          ultimately show ?thesis
            using nv Rec ov old n Inr by (intro nested [of v old old' c]) simp_all
        qed
      qed
    qed
  qed
qed

text \<open>A field that the loop does not visit is untouched, whether the loop returns or raises.\<close>

lemma update_fields_untouched:
  "update_fields index m new ks (self, u) = (self', r) \<Longrightarrow> k \<notin> set ks \<Longrightarrow>
     getattr self' k = getattr self k \<and> (k \<in> set (fields_set self') \<longleftrightarrow> k \<in> set (fields_set self))"
proof (induction ks arbitrary: self u)
  case Nil
  then show ?case by simp
next
  case (Cons key ks)
  from Cons.prems(2) have nk: "k \<noteq> key" "k \<notin> set ks" by auto
  from Cons.prems(1) show ?case
  proof (cases rule: update_fields_Cons_cases)
    case (raise e)
    then show ?thesis using nk by simp
  next
    case (nested v old old' c)
    have "getattr (store_nested self key old') k = getattr self k"
      using nk by (simp add: getattr_store_nested)
    moreover have "fields_set (store_nested self key old') = fields_set self"
      by (simp add: store_nested_def)
    ultimately show ?thesis
      using Cons.IH [OF nested(4) nk(2)] by simp
  next
    case (flat nv)
    have "getattr (set_skip_validation self key nv) k = getattr self k"
      using nk by (simp add: getattr_set_skip_validation)
    moreover have "k \<in> set (fields_set (set_skip_validation self key nv)) \<longleftrightarrow> k \<in> set (fields_set self)"
      using nk by (simp add: set_skip_validation_def)
    ultimately show ?thesis
      using Cons.IH [OF flat(3) nk(2)] by simp
  qed
qed

text \<open>The loop returns exactly when no turn of it raises.\<close>

lemma update_fields_returns_iff:
  "update_fields index m new ks (self, u) = (self', r) \<Longrightarrow> distinct ks \<Longrightarrow>
     (\<exists>u'. r = Inr u') \<longleftrightarrow> (\<forall>k\<in>set ks. step_returns index m self new k)"
proof (induction ks arbitrary: self u)
  case Nil
  then show ?case by auto
next
  case (Cons key ks)
  from Cons.prems(2) have dk: "distinct ks" and nk: "key \<notin> set ks" by auto
  from Cons.prems(1) show ?case
  proof (cases rule: update_fields_Cons_cases)
    case (raise e)
    then show ?thesis by auto
  next
    case (nested v old old' c)
    have "\<forall>k\<in>set ks. step_returns index m (store_nested self key old') new k = step_returns index m self new k"
      using nk by (auto intro!: step_returns_cong simp: getattr_store_nested)
    with Cons.IH [OF nested(4) dk] nested(5) show ?thesis by simp
  next
    case (flat nv)
    have "\<forall>k\<in>set ks. step_returns index m (set_skip_validation self key nv) new k = step_returns index m self new k"
      using nk by (auto intro!: step_returns_cong simp: getattr_set_skip_validation)
    with Cons.IH [OF flat(3) dk] flat(4) show ?thesis by simp
  qed
qed

text \<open>What a returning loop has done to the fields it visited, and the flag it returns.\<close>

lemma update_fields_merged:
  "update_fields index m new ks (self, u) = (self', Inr u') \<Longrightarrow> distinct ks \<Longrightarrow>
     (\<forall>k\<in>set ks. \<forall>v old. getattr new k = Inr (Rec v) \<and> getattr self k = Inr (Rec old)
          \<longrightarrow> (\<exists>old' c. update index old v m = (old', Inr c) \<and> getattr self' k = Inr (Rec old')))
   \<and> (\<forall>k\<in>set ks. (\<nexists>v old. getattr new k = Inr (Rec v) \<and> getattr self k = Inr (Rec old))
          \<longrightarrow> getattr self' k = getattr new k \<and> k \<in> set (fields_set self'))
   \<and> (u' \<longleftrightarrow> u \<or> (\<exists>k\<in>set ks. \<forall>v old. getattr new k = Inr (Rec v) \<and> getattr self k = Inr (Rec old)
          \<longrightarrow> (\<exists>old'. update index old v m = (old', Inr True))))"
proof (induction ks arbitrary: self u)
  case Nil
  then show ?case by simp
next
  case (Cons key ks)
  from Cons.prems(2) have dk: "distinct ks" and nk: "key \<notin> set ks" by auto
  from Cons.prems(1) show ?case
  proof (cases rule: update_fields_Cons_cases)
    case (raise e)
    then show ?thesis by simp
  next
    case (flat nv)
    define self1 where "self1 = set_skip_validation self key nv"
    note step = flat(3) [folded self1_def]
    note IH = Cons.IH [OF step dk]
    have g1: "\<And>k. getattr self1 k = (if k = key then Inr nv else getattr self k)"
      by (simp add: self1_def getattr_set_skip_validation)
    have f1: "key \<in> set (fields_set self1)"
      by (simp add: self1_def set_skip_validation_def)
    have nn: "\<nexists>v old. getattr new key = Inr (Rec v) \<and> getattr self key = Inr (Rec old)"
      using flat(1,2) by auto
    have keyres: "getattr self' key = Inr nv \<and> key \<in> set (fields_set self')"
      using update_fields_untouched [OF step nk] g1 f1 by simp
    show ?thesis
      apply (intro conjI)
      subgoal using IH g1 nn nk by (metis set_ConsD)
      subgoal using IH g1 keyres flat(1) nk by (metis set_ConsD)
      subgoal using IH nn by auto
      done
  next
    case (nested v old old' c)
    define self1 where "self1 = store_nested self key old'"
    note step = nested(4) [folded self1_def]
    note IH = Cons.IH [OF step dk]
    have g1: "\<And>k. getattr self1 k = (if k = key then Inr (Rec old') else getattr self k)"
      by (simp add: self1_def getattr_store_nested)
    have keyres: "getattr self' key = Inr (Rec old')"
      using update_fields_untouched [OF step nk] g1 by simp
    have yes: "getattr new key = Inr (Rec v) \<and> getattr self key = Inr (Rec old)"
      using nested(1,2) by simp
    note upd = nested(3)
    show ?thesis
      apply (intro conjI)
      subgoal using IH g1 yes nk keyres upd by (metis set_ConsD Inr_inject val.inject(2))
      subgoal using IH g1 yes nk by (metis set_ConsD)
      subgoal using IH g1 yes nk upd by (cases c) (auto, (metis)+)
      done
  qed
qed

text \<open>
  When every field set on \<open>new\<close> holds a value that is no record, the loop raises
  nothing, and the flag it returns is true as soon as one field is set.
\<close>

lemma update_fields_flat_returns:
  assumes "\<forall>k\<in>set ks. \<exists>x. getattr new k = Inr (Atom x)"
  shows "\<exists>self'. update_fields index m new ks (self, u) = (self', Inr (u \<or> ks \<noteq> []))"
  using assms
proof (induction ks arbitrary: self u)
  case Nil
  then show ?case by simp
next
  case (Cons key ks)
  then obtain x where x: "getattr new key = Inr (Atom x)" by auto
  from Cons.prems have "\<forall>k\<in>set ks. \<exists>x. getattr new k = Inr (Atom x)" by simp
  from Cons.IH [OF this, of "set_skip_validation self key (Atom x)" True]
  show ?case using x by simp
qed

lemma update_flat_returns:
  assumes "index a = Inr i" and "index b = Inr i"
    and "\<forall>k\<in>set (fields_set b). \<exists>x. getattr b k = Inr (Atom x)"
  shows "\<exists>a'. update index a b m = (a', Inr (fields_set b \<noteq> []))"
  using update_fields_flat_returns [OF assms(3), of index m a False] assms(1,2)
  by (cases m) simp_all

text \<open>
  Claim C3, as the code has it. Let \<open>a\<close> and \<open>b\<close> have the same index and let
  \<open>a.update(b)\<close> leave \<open>a'\<close> and end in \<open>r\<close>, an exception or the returned flag. Every
  field not explicitly set on \<open>b\<close> keeps its value on \<open>a\<close> and its membership in
  \<open>model_fields_set\<close> of \<open>a\<close>, whether the call returns or raises. The call returns exactly
  when every field set on \<open>b\<close> can be read and every nested \<open>update\<close> it makes returns.
  When it returns: every field set on \<open>b\<close> for which both sides hold a record holds the
  result of the nested \<open>update\<close>; every other field set on \<open>b\<close> holds \<open>b\<close>'s value and is
  set on \<open>a\<close>; and the returned flag is true exactly when some field set on \<open>b\<close> was
  overwritten or had a nested \<open>update\<close> that returned true.
\<close>

theorem update_changes_exactly_set_fields:
  assumes "index a = Inr i" and "index b = Inr i"
    and "distinct (fields_set b)"
    and "update index a b m = (a', r)"
  shows "(\<forall>k. k \<notin> set (fields_set b) \<longrightarrow> getattr a' k = getattr a k
            \<and> (k \<in> set (fields_set a') \<longleftrightarrow> k \<in> set (fields_set a)))
   \<and> ((\<exists>changed. r = Inr changed) \<longleftrightarrow> (\<forall>k\<in>set (fields_set b). step_returns index m a b k))
   \<and> (\<forall>changed. r = Inr changed \<longrightarrow>
         (\<forall>k\<in>set (fields_set b). \<forall>v old. getattr b k = Inr (Rec v) \<and> getattr a k = Inr (Rec old)
            \<longrightarrow> (\<exists>old' c. update index old v m = (old', Inr c) \<and> getattr a' k = Inr (Rec old')))
       \<and> (\<forall>k\<in>set (fields_set b). (\<nexists>v old. getattr b k = Inr (Rec v) \<and> getattr a k = Inr (Rec old))
            \<longrightarrow> getattr a' k = getattr b k \<and> k \<in> set (fields_set a'))
       \<and> (changed \<longleftrightarrow> (\<exists>k\<in>set (fields_set b). \<forall>v old. getattr b k = Inr (Rec v) \<and> getattr a k = Inr (Rec old)
            \<longrightarrow> (\<exists>old'. update index old v m = (old', Inr True)))))"
proof -
  have l: "update_fields index m b (fields_set b) (a, False) = (a', r)"
    using assms(1,2,4) by (simp split: if_splits)
  have 1: "\<forall>k. k \<notin> set (fields_set b) \<longrightarrow> getattr a' k = getattr a k
            \<and> (k \<in> set (fields_set a') \<longleftrightarrow> k \<in> set (fields_set a))"
    using update_fields_untouched [OF l] by blast
  note 2 = update_fields_returns_iff [OF l assms(3)]
  have 3: "(\<forall>k\<in>set (fields_set b). \<forall>v old. getattr b k = Inr (Rec v) \<and> getattr a k = Inr (Rec old)
            \<longrightarrow> (\<exists>old' c. update index old v m = (old', Inr c) \<and> getattr a' k = Inr (Rec old')))
       \<and> (\<forall>k\<in>set (fields_set b). (\<nexists>v old. getattr b k = Inr (Rec v) \<and> getattr a k = Inr (Rec old))
            \<longrightarrow> getattr a' k = getattr b k \<and> k \<in> set (fields_set a'))
       \<and> (changed \<longleftrightarrow> (\<exists>k\<in>set (fields_set b). \<forall>v old. getattr b k = Inr (Rec v) \<and> getattr a k = Inr (Rec old)
            \<longrightarrow> (\<exists>old'. update index old v m = (old', Inr True))))"
    if "r = Inr changed" for changed
    using update_fields_merged [OF l [unfolded that] assms(3)] by simp
  from 1 2 3 show ?thesis by blast
qed

theorem update_changes_exactly_set_fields_witness:
  "update id_index ex_a ex_b True = (ex_a_merged, Inr True)
   \<and> id_index ex_a = Inr 1 \<and> id_index ex_b = Inr 1 \<and> distinct (fields_set ex_b)
   \<and> ''name'' \<notin> set (fields_set ex_b)
   \<and> getattr ex_a_merged ''name'' = getattr ex_a ''name''
   \<and> getattr ex_a_merged ''id'' = getattr ex_b ''id''
   \<and> step_returns id_index True ex_a ex_b ''child''"
proof -
  have u: "update id_index ex_a ex_b True = (ex_a_merged, Inr True)"
    by (simp add: id_index_def ex_a_def ex_b_def ex_a_merged_def getattr_def
        set_skip_validation_def store_nested_def)
  have ia: "id_index ex_a = Inr 1" by (simp add: id_index_def ex_a_def)
  have ib: "id_index ex_b = Inr 1" by (simp add: id_index_def ex_b_def)
  have d: "distinct (fields_set ex_b)" by (simp add: ex_b_def)
  have n: "''name'' \<notin> set (fields_set ex_b)" by (simp add: ex_b_def)
  have s: "''id'' \<in> set (fields_set ex_b)" "''child'' \<in> set (fields_set ex_b)"
    by (simp_all add: ex_b_def)
  have flat: "\<nexists>v old. getattr ex_b ''id'' = Inr (Rec v) \<and> getattr ex_a ''id'' = Inr (Rec old)"
    by (simp add: getattr_def ex_b_def)
  note t = update_changes_exactly_set_fields [OF ia ib d u]
  from t n have "getattr ex_a_merged ''name'' = getattr ex_a ''name''" by blast
  moreover from t s(1) flat have "getattr ex_a_merged ''id'' = getattr ex_b ''id''" by blast
  moreover from t s(2) have "step_returns id_index True ex_a ex_b ''child''" by blast
  ultimately show ?thesis using u ia ib d n by simp
qed

text \<open>
  Claim C3 as stated fails. \<open>ex_pa\<close> and \<open>ex_pb\<close> have the same index, and \<open>ex_pb\<close>
  sets \<open>name\<close> and \<open>child\<close>. The nested \<open>update\<close> of the children, called with the same
  \<open>match_index=True\<close>, reads the index of a class that defines none: the call raises
  \<open>NotImplementedError\<close>, with \<open>name\<close> already overwritten and \<open>child\<close>, set on
  \<open>ex_pb\<close>, neither overwritten nor merged.
\<close>

theorem update_nested_without_index_raises:
  "id_index ex_pa = Inr 1 \<and> id_index ex_pb = Inr 1
   \<and> fields_set ex_pb = [''name'', ''child'']
   \<and> update id_index ex_pa ex_pb True = (ex_pa_half, Inl NotImplementedError)
   \<and> getattr ex_pa_half ''name'' = getattr ex_pb ''name''
   \<and> getattr ex_pa_half ''child'' = getattr ex_pa ''child''
   \<and> getattr ex_pa_half ''child'' \<noteq> getattr ex_pb ''child''"
  by (simp add: id_index_def ex_pa_def ex_pb_def ex_pa_half_def getattr_def
      set_skip_validation_def store_nested_def)

section \<open>Properties of keyed collections\<close>

lemma set_iter: "set (iter c) = set (keys c)"
  by (simp add: iter_def)

lemma differing_set:
  "differing eq self new ks = Inr r \<Longrightarrow>
     set r = {k \<in> set ks. \<exists>n s. getitem new k = Inr n \<and> getitem self k = Inr s \<and> \<not> eq n s}"
proof (induction ks arbitrary: r)
  case Nil
  then show ?case by simp
next
  case (Cons key ks)
  then show ?case
    by (auto split: sum.splits if_splits)
qed

lemma update_each_keys:
  "update_each index m new ks (self, acc) = (self', Inr acc') \<Longrightarrow> acc' = acc \<union> set ks"
proof (induction ks arbitrary: self acc)
  case Nil
  then show ?case by simp
next
  case (Cons key ks)
  then show ?case
    by (fastforce split: sum.splits prod.splits)
qed

text \<open>
  What the collection's \<open>update\<close> returns, whenever it returns and whatever the order in
  which Python iterates its sets: \<open>added\<close> is the keys of \<open>new\<close> that \<open>self\<close> lacks, and
  the second set is every common key whose two records are unequal as whole values,
  whatever the record's \<open>update\<close> returned for it.
\<close>

lemma rootdict_update_returns:
  assumes "rootdict_update eq index set_order self new m = (self', Inr (added, updated))"
    and "\<And>xs. set (set_order xs) = set xs"
  shows "added = set (keys new) - set (keys self)
       \<and> updated = {k \<in> set (keys new) \<inter> set (keys self).
                      \<exists>n s. getitem new k = Inr n \<and> getitem self k = Inr s \<and> \<not> eq n s}
       \<and> added \<inter> updated = {}
       \<and> added \<union> updated \<subseteq> set (keys new)"
proof -
  let ?common = "filter (\<lambda>key. key \<in> set (iter self)) (iter new)"
  from assms(1) obtain upd self1 where
    d: "differing eq self new (set_order ?common) = Inr upd"
    and e: "update_each index m new (set_order upd) (self, {}) = (self1, Inr updated)"
    and a: "added = set (filter (\<lambda>key. key \<notin> set (iter self)) (iter new))"
    by (auto simp: rootdict_update_def Let_def split: sum.splits prod.splits option.splits)
  have 1: "added = set (keys new) - set (keys self)"
    using a by (auto simp: set_iter)
  have "updated = set upd"
    using update_each_keys [OF e] assms(2) by simp
  then have 2: "updated = {k \<in> set (keys new) \<inter> set (keys self).
                      \<exists>n s. getitem new k = Inr n \<and> getitem self k = Inr s \<and> \<not> eq n s}"
    using differing_set [OF d] assms(2) by (auto simp: set_iter)
  from 1 2 show ?thesis by auto
qed

text \<open>
  Claim C1, evaluated where it fails. \<open>ex_self\<close> holds \<open>ex_old_item\<close> under key 0 and
  \<open>ex_new\<close> holds under the same key an item on which nothing is explicitly set. The two
  items are unequal as whole values, the record's \<open>update\<close> returns \<open>False\<close> and changes
  nothing, and the collection's \<open>update\<close> still returns key 0 in its second set. (Each
  set iterated here has one element, so there is one order to iterate it in.)
\<close>

theorem rootdict_update_reports_unchanged_key:
  "\<not> model_eq ex_default_item ex_old_item
   \<and> update id_index ex_old_item ex_default_item True = (ex_old_item, Inr False)
   \<and> rootdict_update model_eq id_index (\<lambda>xs. xs) ex_self ex_new True = (ex_self, Inr ({}, {0}))"
  by (simp add: model_eq_def ex_default_item_def ex_old_item_def id_index_def
      rootdict_update_def iter_def keys_def getitem_def ex_self_def ex_new_def)

subsection \<open>Order of the JSON view\<close>

lemma entries_by_key:
  assumes "distinct (map fst xs)"
  shows "map (\<lambda>(key, v). f key v) xs
       = map (\<lambda>key. case (case map_of xs key of None \<Rightarrow> Inl KeyError | Some v \<Rightarrow> Inr v) of
                       Inl e \<Rightarrow> Inl e | Inr v \<Rightarrow> f key v) (map fst xs)"
proof -
  have "\<And>k v. (k, v) \<in> set xs \<Longrightarrow> map_of xs k = Some v"
    using assms by simp
  then show ?thesis
    by (auto simp: comp_def)
qed

text \<open>
  Claim C4, as the code has it. The whole-collection JSON view emits the entries in
  storage order, whatever the sorted mode. Iteration is ascending by key in the sorted
  mode and storage order otherwise. So the view follows the iteration order when the
  sorted mode is off.
\<close>

theorem rootdict_json_storage_order:
  assumes "distinct (keys c)"
  shows "rootdict_json str_key member_json c = json_in_order str_key member_json c (keys c)
       \<and> (sorted_flag c \<longrightarrow> iter c = sort (keys c))
       \<and> (\<not> sorted_flag c \<longrightarrow> iter c = keys c
            \<and> rootdict_json str_key member_json c = json_in_order str_key member_json c (iter c))"
proof -
  have "map (\<lambda>(key, v). json_entry str_key member_json key v) (root c)
      = map (\<lambda>key. case getitem c key of
                        Inl e \<Rightarrow> Inl e
                      | Inr v \<Rightarrow> json_entry str_key member_json key v) (map fst (root c))"
    unfolding getitem_def
    by (rule entries_by_key [OF assms [unfolded keys_def]])
  then have "rootdict_json str_key member_json c = json_in_order str_key member_json c (keys c)"
    unfolding rootdict_json_def json_in_order_def items_def keys_def
    by (rule arg_cong)
  then show ?thesis
    by (simp add: iter_def)
qed

theorem rootdict_json_storage_order_witness:
  "distinct (keys ex_unsorted_mode) \<and> \<not> sorted_flag ex_unsorted_mode
   \<and> iter ex_unsorted_mode = [2, 1]
   \<and> rootdict_json ex_str ex_member_json ex_unsorted_mode
       = json_in_order ex_str ex_member_json ex_unsorted_mode (iter ex_unsorted_mode)"
proof -
  have d: "distinct (keys ex_unsorted_mode)" by (simp add: keys_def ex_unsorted_mode_def)
  have n: "\<not> sorted_flag ex_unsorted_mode" by (simp add: ex_unsorted_mode_def)
  have i: "iter ex_unsorted_mode = [2, 1]" by (simp add: iter_def keys_def ex_unsorted_mode_def)
  from rootdict_json_storage_order [OF d, of ex_str ex_member_json] n
  have "rootdict_json ex_str ex_member_json ex_unsorted_mode
       = json_in_order ex_str ex_member_json ex_unsorted_mode (iter ex_unsorted_mode)" by blast
  with d n i show ?thesis by simp
qed

text \<open>
  Claim C4 as stated fails in the default sorted mode: a collection filled in the order
  2, 1 iterates as 1, 2 and its JSON view emits key 2 first.
\<close>

theorem rootdict_json_not_iteration_order:
  "iter ex_unordered = [1, 2]
   \<and> rootdict_json ex_str ex_member_json ex_unordered
       = Inr ([CHR ''{'', CHR 0x22] @ ''2'' @ [CHR 0x22] @ '': {2},'' @ [CHR 0x0A, CHR 0x22] @ ''1'' @ [CHR 0x22] @ '': {1}}'')
   \<and> json_in_order ex_str ex_member_json ex_unordered (iter ex_unordered)
       = Inr ([CHR ''{'', CHR 0x22] @ ''1'' @ [CHR 0x22] @ '': {1},'' @ [CHR 0x0A, CHR 0x22] @ ''2'' @ [CHR 0x22] @ '': {2}}'')
   \<and> rootdict_json ex_str ex_member_json ex_unordered
       \<noteq> json_in_order ex_str ex_member_json ex_unordered (iter ex_unordered)"
  by (simp add: iter_def keys_def items_def getitem_def rootdict_json_def json_in_order_def
      wrap_entries_def json_entry_def ex_unordered_def ex_str_def ex_member_json_def
      ex_item1_def ex_item2_def)


section \<open>Properties of the export\<close>

subsection \<open>The format taken from the file name\<close>

lemma endswith_iff: "endswith s t \<longleftrightarrow> (\<exists>p. s = p @ t)"
proof
  assume "endswith s t"
  then have "s = take (length s - length t) s @ t"
    by (metis append_take_drop_id endswith_def)
  then show "\<exists>p. s = p @ t" ..
next
  assume "\<exists>p. s = p @ t"
  then show "endswith s t"
    by (auto simp: endswith_def)
qed

lemma endswith_last: "endswith s t \<Longrightarrow> t \<noteq> [] \<Longrightarrow> last s = last t"
  by (auto simp: endswith_iff)

lemma resolve_format_stdout: "resolve_format format ''-'' = format"
  by (simp add: resolve_format_def)

lemma resolve_format_suffix:
  assumes "filename \<noteq> ''-''"
  shows "endswith filename ''.csv'' \<Longrightarrow> resolve_format format filename = ''csv''"
    and "endswith filename ''.json'' \<Longrightarrow> resolve_format format filename = ''json''"
    and "endswith filename ''.txt'' \<Longrightarrow> resolve_format format filename = ''txt''"
proof -
  have dot: "\<And>t. endswith filename (CHR ''.'' # t) \<Longrightarrow> endswith filename t"
    by (metis append.assoc append_Cons append_Nil endswith_iff)
  {
    assume "endswith filename ''.csv''"
    then have "endswith filename ''csv''" by (rule dot)
    then show "resolve_format format filename = ''csv''"
      using assms by (simp add: resolve_format_def EXPORT_FORMATS_def EXPORT_FORMAT_args_def)
  }
  {
    assume "endswith filename ''.json''"
    then have j: "endswith filename ''json''" by (rule dot)
    then have "\<not> endswith filename ''csv''"
      using endswith_last [of filename "''json''"] endswith_last [of filename "''csv''"] by auto
    with j show "resolve_format format filename = ''json''"
      using assms by (simp add: resolve_format_def EXPORT_FORMATS_def EXPORT_FORMAT_args_def)
  }
  {
    assume "endswith filename ''.txt''"
    then have t: "endswith filename ''txt''" by (rule dot)
    then have "\<not> endswith filename ''csv''" and "\<not> endswith filename ''json''"
      using endswith_last [of filename "''txt''"] endswith_last [of filename "''csv''"]
        endswith_last [of filename "''json''"] by auto
    with t show "resolve_format format filename = ''txt''"
      using assms by (simp add: resolve_format_def EXPORT_FORMATS_def EXPORT_FORMAT_args_def)
  }
qed

text \<open>
  Claim C6, evaluated where it fails. For the file name \<open>OUT.CSV\<close> and the requested
  format \<open>json\<close> the format stays \<open>json\<close>: \<open>export\<close> compares the suffix with
  \<open>filename.endswith\<close>, case-sensitively, while \<open>export_csv\<close>, \<open>export_json\<close> and
  \<open>export_txt\<close> lower the name first. The record is written as JSON to
  \<open>OUT.CSV.json\<close>.
\<close>

theorem export_uppercase_suffix_not_applied:
  "resolve_format ''json'' ''OUT.CSV'' = ''json''
   \<and> endswith (lower ''OUT.CSV'') ''csv''
   \<and> files (fst (export ex_lib (Next (ex_row ''1'') End) ''json'' ''OUT.CSV'' False False ex_empty_world))
        ''OUT.CSV.json'' = Some (RegularFile [''1'' @ linesep])
   \<and> files (fst (export ex_lib (Next (ex_row ''1'') End) ''json'' ''OUT.CSV'' False False ex_empty_world))
        ''OUT.CSV'' = None"
proof -
  have r: "resolve_format ''json'' ''OUT.CSV'' = ''json''"
    by (simp add: resolve_format_def EXPORT_FORMATS_def EXPORT_FORMAT_args_def endswith_def)
  have l: "endswith (lower ''OUT.CSV'') ''csv''"
    by (simp add: endswith_def lower_def lower_char_def)
  have n: "with_suffix ''OUT.CSV'' ''json'' = ''OUT.CSV.json''"
    by (simp add: with_suffix_def endswith_def lower_def lower_char_def)
  have e: "export_json (Next (ex_row ''1'') End) ''OUT.CSV'' False False ex_empty_world
         = (ex_empty_world\<lparr>files := [''OUT.CSV.json'' \<mapsto> RegularFile [''1'' @ linesep]]\<rparr>,
            Inr (log (EventCounter ''JSON'') ''rows''))"
    by (simp add: export_json_def export_json_body_def n destination_conflict_def exists_def isfile_def
        open_file_def write_file_def row_step_def json_line_def ex_row_def except_Exception_def
        except_CancelledError_def Let_def ex_empty_world_def)
  have x: "export ex_lib (Next (ex_row ''1'') End) ''json'' ''OUT.CSV'' False False ex_empty_world
         = (ex_empty_world\<lparr>files := [''OUT.CSV.json'' \<mapsto> RegularFile [''1'' @ linesep]]\<rparr>,
            Inr (merge_child (EventCounter ''write'') (log (EventCounter ''JSON'') ''rows'')))"
    by (simp add: export_def r merge_result_def Let_def e)
  show ?thesis
    unfolding x by (simp add: r l)
qed

subsection \<open>A destination that exists\<close>

lemma conflict_without_flags:
  "exists w filename \<Longrightarrow> \<not> force \<Longrightarrow> \<not> append' \<Longrightarrow> destination_conflict w filename force append'"
  by (simp add: destination_conflict_def)

text \<open>
  Claim C5, as the code has it. When the destination file exists and neither \<open>force\<close>
  nor \<open>append\<close> is set, \<open>export_csv\<close> (once the first record has given its headers),
  \<open>export_json\<close> and \<open>export_txt\<close> raise \<open>FileExistsError\<close> before the file is opened;
  their own \<open>except Exception\<close> clause reports it and the call returns its empty
  counter. Files and standard output are as before, no row and no error is counted, and
  \<open>export\<close> returns the merged, still empty, counter.
\<close>

theorem export_destination_exists:
  assumes "filename \<noteq> []" and "filename \<noteq> ''-''" and "\<not> force" and "\<not> append'"
  shows "(exists w (with_suffix filename ''csv'') \<and> csv_headers x = Inr fieldnames \<longrightarrow>
            export_csv lib (Next x rest) filename force append' w
              = (error FileExistsError w, Inr (EventCounter ''CSV''))
            \<and> (resolve_format format filename = ''csv'' \<longrightarrow>
                 export lib (Next x rest) format filename force append' w
                   = (error FileExistsError w, Inr (merge_child (EventCounter ''write'') (EventCounter ''CSV'')))))
       \<and> (exists w (with_suffix filename ''json'') \<longrightarrow>
            export_json iterable filename force append' w
              = (error FileExistsError w, Inr (EventCounter ''JSON'')))
       \<and> (exists w (with_suffix filename ''txt'') \<longrightarrow>
            export_txt iterable filename force append' w
              = (error FileExistsError w, Inr (EventCounter ''Text'')))
       \<and> files (error FileExistsError w) = files w
       \<and> stdout (error FileExistsError w) = stdout w
       \<and> counts (merge_child (EventCounter ''write'') (EventCounter ''CSV'')) category = 0"
proof -
  have csv: "export_csv lib (Next x rest) filename force append' w
              = (error FileExistsError w, Inr (EventCounter ''CSV''))"
    if "exists w (with_suffix filename ''csv'')" and "csv_headers x = Inr fieldnames"
    using that assms conflict_without_flags [OF that(1) assms(3,4)]
    by (simp add: export_csv_def export_csv_body_def except_Exception_def Let_def)
  have exp: "export lib (Next x rest) format filename force append' w
               = (error FileExistsError w, Inr (merge_child (EventCounter ''write'') (EventCounter ''CSV'')))"
    if "exists w (with_suffix filename ''csv'')" and "csv_headers x = Inr fieldnames"
      and "resolve_format format filename = ''csv''"
    using csv [OF that(1,2)] that(3)
    by (simp add: export_def merge_result_def Let_def)
  have json: "export_json iterable filename force append' w
              = (error FileExistsError w, Inr (EventCounter ''JSON''))"
    if "exists w (with_suffix filename ''json'')"
    using that assms conflict_without_flags [OF that assms(3,4)]
    by (simp add: export_json_def export_json_body_def except_Exception_def
        except_CancelledError_def Let_def)
  have tx: "export_txt iterable filename force append' w
              = (error FileExistsError w, Inr (EventCounter ''Text''))"
    if "exists w (with_suffix filename ''txt'')"
    using that assms conflict_without_flags [OF that assms(3,4)]
    by (simp add: export_txt_def export_txt_body_def except_Exception_def
        except_CancelledError_def Let_def)
  have rest: "files (error FileExistsError w) = files w \<and> stdout (error FileExistsError w) = stdout w
       \<and> counts (merge_child (EventCounter ''write'') (EventCounter ''CSV'')) category = 0"
    by (simp add: error_def merge_child_def EventCounter_def)
  from csv exp json tx rest show ?thesis by blast
qed

theorem export_destination_exists_witness:
  "exists ex_world (with_suffix ''out'' ''csv'')
   \<and> export_csv ex_lib (Next (ex_row ''1'') End) ''out'' False False ex_world
       = (error FileExistsError ex_world, Inr (EventCounter ''CSV''))
   \<and> files (error FileExistsError ex_world) ''out.csv'' = Some (RegularFile [''old''])"
proof -
  have n: "with_suffix ''out'' ''csv'' = ''out.csv''"
    by (simp add: with_suffix_def endswith_def lower_def lower_char_def)
  have e: "exists ex_world (with_suffix ''out'' ''csv'')"
    by (simp add: n exists_def ex_world_def)
  have h: "csv_headers (ex_row ''1'') = Inr [''name'']"
    by (simp add: ex_row_def)
  have a: "''out'' \<noteq> []" "''out'' \<noteq> ''-''" "\<not> False" by simp_all
  note t = export_destination_exists [OF a(1) a(2) a(3) a(3), of ex_world "ex_row ''1''" "[''name'']" ex_lib End]
  from t e h have "export_csv ex_lib (Next (ex_row ''1'') End) ''out'' False False ex_world
       = (error FileExistsError ex_world, Inr (EventCounter ''CSV''))" by blast
  moreover from t have "files (error FileExistsError ex_world) = files ex_world" by blast
  ultimately show ?thesis using e by (simp add: ex_world_def)
qed

text \<open>
  Claim C5 as stated fails: the condition does not reach the caller. Exporting to the
  existing \<open>out.csv\<close> without \<open>force\<close> or \<open>append\<close>, \<open>export_csv\<close> and \<open>export\<close> both
  return a counter, not an exception.
\<close>

theorem export_destination_exists_returns:
  "snd (export_csv ex_lib (Next (ex_row ''1'') End) ''out.csv'' False False ex_world)
     = Inr (EventCounter ''CSV'')
   \<and> snd (export ex_lib (Next (ex_row ''1'') End) ''csv'' ''out.csv'' False False ex_world)
     = Inr (merge_child (EventCounter ''write'') (EventCounter ''CSV''))
   \<and> errlog (fst (export ex_lib (Next (ex_row ''1'') End) ''csv'' ''out.csv'' False False ex_world))
     = [FileExistsError]"
proof -
  have n: "with_suffix ''out.csv'' ''csv'' = ''out.csv''"
    by (simp add: with_suffix_def endswith_def lower_def lower_char_def)
  have c: "export_csv ex_lib (Next (ex_row ''1'') End) ''out.csv'' False False ex_world
         = (error FileExistsError ex_world, Inr (EventCounter ''CSV''))"
    by (simp add: export_csv_def export_csv_body_def n destination_conflict_def exists_def
        ex_world_def ex_row_def except_Exception_def Let_def)
  have r: "resolve_format ''csv'' ''out.csv'' = ''csv''"
    by (simp add: resolve_format_def EXPORT_FORMATS_def EXPORT_FORMAT_args_def endswith_def)
  have x: "export ex_lib (Next (ex_row ''1'') End) ''csv'' ''out.csv'' False False ex_world
         = (error FileExistsError ex_world, Inr (merge_child (EventCounter ''write'') (EventCounter ''CSV'')))"
    by (simp add: c r export_def merge_result_def Let_def)
  show ?thesis
    unfolding c x by (simp add: error_def ex_world_def)
qed

subsection \<open>An unknown format\<close>

text \<open>
  Claim C9, as the code has it. When the resolved format is none of \<open>txt\<close>, \<open>json\<close>,
  \<open>csv\<close>, \<open>export\<close> raises \<open>ValueError\<close> inside its own \<open>try\<close>; the clause
  \<open>except Exception\<close> counts one \<open>errors\<close> and reports it, nothing is written, and the
  call returns the counter.
\<close>

theorem export_unknown_format_counted:
  assumes "resolve_format format filename \<notin> {''txt'', ''json'', ''csv''}"
  shows "export lib iterable format filename force append' w
           = (error ValueError w, Inr (log (EventCounter ''write'') ''errors''))
       \<and> counts (log (EventCounter ''write'') ''errors'') ''errors'' = 1
       \<and> counts (log (EventCounter ''write'') ''errors'') ''rows'' = 0
       \<and> files (error ValueError w) = files w \<and> stdout (error ValueError w) = stdout w"
  using assms
  by (simp add: export_def Let_def log_def EventCounter_def error_def)

theorem export_unknown_format_counted_witness:
  "resolve_format ''xml'' ''out.dat'' \<notin> {''txt'', ''json'', ''csv''}
   \<and> export ex_lib (aiter_of ex_five) ''xml'' ''out.dat'' False False ex_empty_world
       = (error ValueError ex_empty_world, Inr (log (EventCounter ''write'') ''errors''))"
proof -
  have r: "resolve_format ''xml'' ''out.dat'' \<notin> {''txt'', ''json'', ''csv''}"
    by (simp add: resolve_format_def EXPORT_FORMATS_def EXPORT_FORMAT_args_def endswith_def)
  from export_unknown_format_counted [OF r] r show ?thesis by blast
qed

text \<open>
  Claim C9 as stated fails: for the format \<open>xml\<close> on standard output the call returns a
  counter in which the failure is counted under \<open>errors\<close>; no exception reaches the
  caller.
\<close>

theorem export_unknown_format_returns:
  "snd (export ex_lib End ''xml'' ''-'' False False ex_empty_world)
     = Inr (log (EventCounter ''write'') ''errors'')
   \<and> counts (log (EventCounter ''write'') ''errors'') ''errors'' = 1"
  by (simp add: export_def resolve_format_def Let_def log_def EventCounter_def)


subsection \<open>One failing row does not stop the others\<close>

lemma rows_length:
  "length (rows_written fails render xs content) + length (rows_failed fails render xs content) = length xs"
  by (induction xs arbitrary: content) (auto split: sum.splits option.splits)

text \<open>
  The loops whose body is \<open>row_step\<close>, over a finite sequence: when every rendering and
  every write that fails raises an \<open>Exception\<close>, the loop ends normally, having emitted
  \<open>rows_written\<close> and reported \<open>rows_failed\<close>.
\<close>

lemma async_for_write_file:
  assumes "\<forall>x\<in>set xs. \<forall>e. render x = Inl e \<longrightarrow> is_Exception e"
    and "\<forall>c t e. write_fails w filename c t = Some e \<longrightarrow> is_Exception e"
    and "files w filename = Some (RegularFile content)"
  shows "\<exists>w' stats'.
           async_for (\<lambda>x. row_step (render x) (write_file filename)) (aiter_of xs) (w, stats)
             = ((w', stats'), None)
         \<and> files w' = (files w)(filename \<mapsto>
               RegularFile (content @ rows_written (write_fails w filename) render xs content))
         \<and> stdout w' = stdout w
         \<and> errlog w' = errlog w @ rows_failed (write_fails w filename) render xs content
         \<and> counts stats' ''rows''
             = counts stats ''rows'' + length (rows_written (write_fails w filename) render xs content)
         \<and> counts stats' ''errors''
             = counts stats ''errors'' + length (rows_failed (write_fails w filename) render xs content)"
  using assms
proof (induction xs arbitrary: w stats content)
  case Nil
  then show ?case by (auto simp: fun_upd_idem)
next
  case (Cons x xs)
  let ?F = "write_fails w filename"
  from Cons.prems(1) have p: "\<forall>x\<in>set xs. \<forall>e. render x = Inl e \<longrightarrow> is_Exception e" by simp
  have failing: ?case
    if st: "row_step (render x) (write_file filename) (w, stats) = ((error e w, log stats ''errors''), None)"
      and rw: "rows_written ?F render (x # xs) content = rows_written ?F render xs content"
      and rf: "rows_failed ?F render (x # xs) content = e # rows_failed ?F render xs content"
    for e
  proof -
    let ?w1 = "error e w"
    let ?s1 = "log stats ''errors''"
    have f1: "files ?w1 filename = Some (RegularFile content)"
      using Cons.prems(3) by (simp add: error_def)
    have q: "\<forall>c t e. write_fails ?w1 filename c t = Some e \<longrightarrow> is_Exception e"
      using Cons.prems(2) by (simp add: error_def)
    have w1: "files ?w1 = files w" "stdout ?w1 = stdout w" "errlog ?w1 = errlog w @ [e]"
      "write_fails ?w1 = write_fails w"
      by (simp_all add: error_def)
    have s1: "counts ?s1 ''rows'' = counts stats ''rows''" "counts ?s1 ''errors'' = Suc (counts stats ''errors'')"
      by (simp_all add: log_def)
    from Cons.IH [OF p q f1, of ?s1] obtain w' stats' where
      l: "async_for (\<lambda>x. row_step (render x) (write_file filename)) (aiter_of xs) (?w1, ?s1) = ((w', stats'), None)"
      and r: "files w' = (files ?w1)(filename \<mapsto>
                 RegularFile (content @ rows_written (write_fails ?w1 filename) render xs content))"
        "stdout w' = stdout ?w1"
        "errlog w' = errlog ?w1 @ rows_failed (write_fails ?w1 filename) render xs content"
        "counts stats' ''rows'' = counts ?s1 ''rows'' + length (rows_written (write_fails ?w1 filename) render xs content)"
        "counts stats' ''errors'' = counts ?s1 ''errors'' + length (rows_failed (write_fails ?w1 filename) render xs content)"
      by blast
    have "async_for (\<lambda>x. row_step (render x) (write_file filename)) (aiter_of (x # xs)) (w, stats) = ((w', stats'), None)"
      using l st by simp
    then show ?thesis
      using r w1 s1 rw rf by auto
  qed
  show ?case
  proof (cases "render x")
    case (Inl e)
    then have "is_Exception e" using Cons.prems(1) by simp
    with Inl show ?thesis
      by (intro failing [of e]) (simp_all add: row_step_def row_except_def)
  next
    case (Inr t)
    show ?thesis
    proof (cases "?F content t")
      case (Some e)
      then have "is_Exception e" using Cons.prems(2) by simp
      with Inr Some Cons.prems(3) show ?thesis
        by (intro failing [of e]) (simp_all add: row_step_def row_except_def write_file_def)
    next
      case None
      let ?w1 = "w\<lparr>files := (files w)(filename \<mapsto> RegularFile (content @ [t]))\<rparr>"
      let ?s1 = "log stats ''rows''"
      have st: "row_step (render x) (write_file filename) (w, stats) = ((?w1, ?s1), None)"
        using Inr None Cons.prems(3) by (simp add: row_step_def write_file_def)
      have f1: "files ?w1 filename = Some (RegularFile (content @ [t]))" by simp
      have q: "\<forall>c t e. write_fails ?w1 filename c t = Some e \<longrightarrow> is_Exception e"
        using Cons.prems(2) by simp
      have s1: "counts ?s1 ''rows'' = Suc (counts stats ''rows'')" "counts ?s1 ''errors'' = counts stats ''errors''"
        by (simp_all add: log_def)
      from Cons.IH [OF p q f1, of ?s1] obtain w' stats' where
        l: "async_for (\<lambda>x. row_step (render x) (write_file filename)) (aiter_of xs) (?w1, ?s1) = ((w', stats'), None)"
        and r: "files w' = (files ?w1)(filename \<mapsto>
                   RegularFile ((content @ [t]) @ rows_written (write_fails ?w1 filename) render xs (content @ [t])))"
          "stdout w' = stdout ?w1"
          "errlog w' = errlog ?w1 @ rows_failed (write_fails ?w1 filename) render xs (content @ [t])"
          "counts stats' ''rows'' = counts ?s1 ''rows'' + length (rows_written (write_fails ?w1 filename) render xs (content @ [t]))"
          "counts stats' ''errors'' = counts ?s1 ''errors'' + length (rows_failed (write_fails ?w1 filename) render xs (content @ [t]))"
        by blast
      have "async_for (\<lambda>x. row_step (render x) (write_file filename)) (aiter_of (x # xs)) (w, stats) = ((w', stats'), None)"
        using l st by simp
      then show ?thesis
        using r s1 Inr None by auto
    qed
  qed
qed

lemma async_for_print:
  assumes "\<forall>x\<in>set xs. \<forall>e. render x = Inl e \<longrightarrow> is_Exception e"
    and "\<forall>c t e. print_fails w c t = Some e \<longrightarrow> is_Exception e"
  shows "\<exists>w' stats'.
           async_for (\<lambda>x. row_step (render x) print) (aiter_of xs) (w, stats) = ((w', stats'), None)
         \<and> files w' = files w
         \<and> stdout w' = stdout w @ rows_written (print_fails w) render xs (stdout w)
         \<and> errlog w' = errlog w @ rows_failed (print_fails w) render xs (stdout w)
         \<and> counts stats' ''rows''
             = counts stats ''rows'' + length (rows_written (print_fails w) render xs (stdout w))
         \<and> counts stats' ''errors''
             = counts stats ''errors'' + length (rows_failed (print_fails w) render xs (stdout w))"
  using assms
proof (induction xs arbitrary: w stats)
  case Nil
  then show ?case by simp
next
  case (Cons x xs)
  let ?F = "print_fails w"
  from Cons.prems(1) have p: "\<forall>x\<in>set xs. \<forall>e. render x = Inl e \<longrightarrow> is_Exception e" by simp
  have failing: ?case
    if st: "row_step (render x) print (w, stats) = ((error e w, log stats ''errors''), None)"
      and rw: "rows_written ?F render (x # xs) (stdout w) = rows_written ?F render xs (stdout w)"
      and rf: "rows_failed ?F render (x # xs) (stdout w) = e # rows_failed ?F render xs (stdout w)"
    for e
  proof -
    let ?w1 = "error e w"
    let ?s1 = "log stats ''errors''"
    have q: "\<forall>c t e. print_fails ?w1 c t = Some e \<longrightarrow> is_Exception e"
      using Cons.prems(2) by (simp add: error_def)
    have w1: "files ?w1 = files w" "stdout ?w1 = stdout w" "errlog ?w1 = errlog w @ [e]"
      "print_fails ?w1 = print_fails w"
      by (simp_all add: error_def)
    have s1: "counts ?s1 ''rows'' = counts stats ''rows''" "counts ?s1 ''errors'' = Suc (counts stats ''errors'')"
      by (simp_all add: log_def)
    from Cons.IH [OF p q, of ?s1] obtain w' stats' where
      l: "async_for (\<lambda>x. row_step (render x) print) (aiter_of xs) (?w1, ?s1) = ((w', stats'), None)"
      and r: "files w' = files ?w1"
        "stdout w' = stdout ?w1 @ rows_written (print_fails ?w1) render xs (stdout ?w1)"
        "errlog w' = errlog ?w1 @ rows_failed (print_fails ?w1) render xs (stdout ?w1)"
        "counts stats' ''rows'' = counts ?s1 ''rows'' + length (rows_written (print_fails ?w1) render xs (stdout ?w1))"
        "counts stats' ''errors'' = counts ?s1 ''errors'' + length (rows_failed (print_fails ?w1) render xs (stdout ?w1))"
      by blast
    have "async_for (\<lambda>x. row_step (render x) print) (aiter_of (x # xs)) (w, stats) = ((w', stats'), None)"
      using l st by simp
    then show ?thesis
      using r w1 s1 rw rf by auto
  qed
  show ?case
  proof (cases "render x")
    case (Inl e)
    then have "is_Exception e" using Cons.prems(1) by simp
    with Inl show ?thesis
      by (intro failing [of e]) (simp_all add: row_step_def row_except_def)
  next
    case (Inr t)
    show ?thesis
    proof (cases "?F (stdout w) t")
      case (Some e)
      then have "is_Exception e" using Cons.prems(2) by simp
      with Inr Some show ?thesis
        by (intro failing [of e]) (simp_all add: row_step_def row_except_def print_def)
    next
      case None
      let ?w1 = "w\<lparr>stdout := stdout w @ [t]\<rparr>"
      let ?s1 = "log stats ''rows''"
      have st: "row_step (render x) print (w, stats) = ((?w1, ?s1), None)"
        using Inr None by (simp add: row_step_def print_def)
      have q: "\<forall>c t e. print_fails ?w1 c t = Some e \<longrightarrow> is_Exception e"
        using Cons.prems(2) by simp
      have s1: "counts ?s1 ''rows'' = Suc (counts stats ''rows'')" "counts ?s1 ''errors'' = counts stats ''errors''"
        by (simp_all add: log_def)
      from Cons.IH [OF p q, of ?s1] obtain w' stats' where
        l: "async_for (\<lambda>x. row_step (render x) print) (aiter_of xs) (?w1, ?s1) = ((w', stats'), None)"
        and r: "files w' = files ?w1"
          "stdout w' = stdout ?w1 @ rows_written (print_fails ?w1) render xs (stdout ?w1)"
          "errlog w' = errlog ?w1 @ rows_failed (print_fails ?w1) render xs (stdout ?w1)"
          "counts stats' ''rows'' = counts ?s1 ''rows'' + length (rows_written (print_fails ?w1) render xs (stdout ?w1))"
          "counts stats' ''errors'' = counts ?s1 ''errors'' + length (rows_failed (print_fails ?w1) render xs (stdout ?w1))"
        by blast
      have "async_for (\<lambda>x. row_step (render x) print) (aiter_of (x # xs)) (w, stats) = ((w', stats'), None)"
        using l st by simp
      then show ?thesis
        using r s1 Inr None by auto
    qed
  qed
qed

lemma open_file_content:
  assumes "\<not> destination_conflict w filename force append'"
    and "\<forall>m. open_fails w filename m = None"
  shows "\<exists>w1. open_file filename (if append' \<and> isfile w filename then ModeA else ModeW) w = Inr w1
           \<and> files w1 filename = Some (RegularFile (initial_content w filename append'))
           \<and> stdout w1 = stdout w \<and> errlog w1 = errlog w
           \<and> write_fails w1 = write_fails w"
  using assms
  by (auto simp: open_file_def initial_content_def isfile_def destination_conflict_def exists_def
      split: option.splits fsnode.splits)

lemma json_line_failure: "json_line x = Inl e \<longleftrightarrow> json_src x = Inl e"
  by (auto simp: json_line_def split: sum.splits)

lemma txt_line_failure: "txt_line x = Inl e \<longleftrightarrow> txt_row x [] = Inl e"
  by (auto simp: txt_line_def split: sum.splits)

text \<open>
  \<open>export_json\<close> and \<open>export_txt\<close>, to a file and to standard output, and \<open>export_csv\<close>
  to a file: every record either adds its row or adds one error, in order, and the
  call returns its counter.
\<close>

lemma export_json_file_rows:
  assumes "filename \<noteq> []" and "filename \<noteq> ''-''"
    and "\<forall>x\<in>set xs. \<forall>e. json_src x = Inl e \<longrightarrow> is_Exception e"
    and "\<forall>c t e. write_fails w (with_suffix filename ''json'') c t = Some e \<longrightarrow> is_Exception e"
    and "\<not> destination_conflict w (with_suffix filename ''json'') force append'"
    and "\<forall>m. open_fails w (with_suffix filename ''json'') m = None"
  shows "\<exists>w' stats.
           export_json (aiter_of xs) filename force append' w = (w', Inr stats)
         \<and> files w' (with_suffix filename ''json'')
             = Some (RegularFile (initial_content w (with_suffix filename ''json'') append'
                 @ rows_written (write_fails w (with_suffix filename ''json'')) json_line xs
                     (initial_content w (with_suffix filename ''json'') append')))
         \<and> errlog w' = errlog w @ rows_failed (write_fails w (with_suffix filename ''json'')) json_line xs
                     (initial_content w (with_suffix filename ''json'') append')
         \<and> counts stats ''rows'' = length (rows_written (write_fails w (with_suffix filename ''json'')) json_line xs
                     (initial_content w (with_suffix filename ''json'') append'))
         \<and> counts stats ''errors'' = length (rows_failed (write_fails w (with_suffix filename ''json'')) json_line xs
                     (initial_content w (with_suffix filename ''json'') append'))"
proof -
  let ?t = "with_suffix filename ''json''"
  let ?c = "initial_content w ?t append'"
  have p: "\<forall>x\<in>set xs. \<forall>e. json_line x = Inl e \<longrightarrow> is_Exception e"
    using assms(3) by (simp add: json_line_failure)
  from open_file_content [OF assms(5,6)] obtain w1 where
    o: "open_file ?t (if append' \<and> isfile w ?t then ModeA else ModeW) w = Inr w1"
      "files w1 ?t = Some (RegularFile ?c)" "stdout w1 = stdout w" "errlog w1 = errlog w"
      "write_fails w1 = write_fails w"
    by blast
  have q: "\<forall>c t e. write_fails w1 ?t c t = Some e \<longrightarrow> is_Exception e"
    using assms(4) o(5) by simp
  from async_for_write_file [OF p q o(2), of "EventCounter ''JSON''"] obtain w' stats' where
    l: "async_for (\<lambda>x. row_step (json_line x) (write_file ?t)) (aiter_of xs) (w1, EventCounter ''JSON'')
          = ((w', stats'), None)"
    and r: "files w' = (files w1)(?t \<mapsto> RegularFile (?c @ rows_written (write_fails w1 ?t) json_line xs ?c))"
      "errlog w' = errlog w1 @ rows_failed (write_fails w1 ?t) json_line xs ?c"
      "counts stats' ''rows'' = counts (EventCounter ''JSON'') ''rows'' + length (rows_written (write_fails w1 ?t) json_line xs ?c)"
      "counts stats' ''errors'' = counts (EventCounter ''JSON'') ''errors'' + length (rows_failed (write_fails w1 ?t) json_line xs ?c)"
    by blast
  have "export_json (aiter_of xs) filename force append' w = (w', Inr stats')"
    using assms(1,2,5) l o(1)
    by (simp add: export_json_def export_json_body_def Let_def except_CancelledError_def except_Exception_def)
  then show ?thesis
    using r o by (auto simp: EventCounter_def)
qed

lemma export_json_stdout_rows:
  assumes "\<forall>x\<in>set xs. \<forall>e. json_src x = Inl e \<longrightarrow> is_Exception e"
    and "\<forall>c t e. print_fails w c t = Some e \<longrightarrow> is_Exception e"
  shows "\<exists>w' stats.
           export_json (aiter_of xs) ''-'' force append' w = (w', Inr stats)
         \<and> files w' = files w
         \<and> stdout w' = stdout w @ rows_written (print_fails w) json_src xs (stdout w)
         \<and> errlog w' = errlog w @ rows_failed (print_fails w) json_src xs (stdout w)
         \<and> counts stats ''rows'' = length (rows_written (print_fails w) json_src xs (stdout w))
         \<and> counts stats ''errors'' = length (rows_failed (print_fails w) json_src xs (stdout w))"
proof -
  from async_for_print [OF assms, of "EventCounter ''JSON''"] obtain w' stats' where
    l: "async_for (\<lambda>x. row_step (json_src x) print) (aiter_of xs) (w, EventCounter ''JSON'') = ((w', stats'), None)"
    and r: "files w' = files w"
      "stdout w' = stdout w @ rows_written (print_fails w) json_src xs (stdout w)"
      "errlog w' = errlog w @ rows_failed (print_fails w) json_src xs (stdout w)"
      "counts stats' ''rows'' = counts (EventCounter ''JSON'') ''rows'' + length (rows_written (print_fails w) json_src xs (stdout w))"
      "counts stats' ''errors'' = counts (EventCounter ''JSON'') ''errors'' + length (rows_failed (print_fails w) json_src xs (stdout w))"
    by blast
  have "export_json (aiter_of xs) ''-'' force append' w = (w', Inr stats')"
    using l
    by (simp add: export_json_def export_json_body_def except_CancelledError_def except_Exception_def)
  then show ?thesis
    using r by (auto simp: EventCounter_def)
qed

lemma export_txt_file_rows:
  assumes "filename \<noteq> []" and "filename \<noteq> ''-''"
    and "\<forall>x\<in>set xs. \<forall>e. txt_row x [] = Inl e \<longrightarrow> is_Exception e"
    and "\<forall>c t e. write_fails w (with_suffix filename ''txt'') c t = Some e \<longrightarrow> is_Exception e"
    and "\<not> destination_conflict w (with_suffix filename ''txt'') force append'"
    and "\<forall>m. open_fails w (with_suffix filename ''txt'') m = None"
  shows "\<exists>w' stats.
           export_txt (aiter_of xs) filename force append' w = (w', Inr stats)
         \<and> files w' (with_suffix filename ''txt'')
             = Some (RegularFile (initial_content w (with_suffix filename ''txt'') append'
                 @ rows_written (write_fails w (with_suffix filename ''txt'')) txt_line xs
                     (initial_content w (with_suffix filename ''txt'') append')))
         \<and> errlog w' = errlog w @ rows_failed (write_fails w (with_suffix filename ''txt'')) txt_line xs
                     (initial_content w (with_suffix filename ''txt'') append')
         \<and> counts stats ''rows'' = length (rows_written (write_fails w (with_suffix filename ''txt'')) txt_line xs
                     (initial_content w (with_suffix filename ''txt'') append'))
         \<and> counts stats ''errors'' = length (rows_failed (write_fails w (with_suffix filename ''txt'')) txt_line xs
                     (initial_content w (with_suffix filename ''txt'') append'))"
proof -
  let ?t = "with_suffix filename ''txt''"
  let ?c = "initial_content w ?t append'"
  have p: "\<forall>x\<in>set xs. \<forall>e. txt_line x = Inl e \<longrightarrow> is_Exception e"
    using assms(3) by (simp add: txt_line_failure)
  from open_file_content [OF assms(5,6)] obtain w1 where
    o: "open_file ?t (if append' \<and> isfile w ?t then ModeA else ModeW) w = Inr w1"
      "files w1 ?t = Some (RegularFile ?c)" "stdout w1 = stdout w" "errlog w1 = errlog w"
      "write_fails w1 = write_fails w"
    by blast
  have q: "\<forall>c t e. write_fails w1 ?t c t = Some e \<longrightarrow> is_Exception e"
    using assms(4) o(5) by simp
  from async_for_write_file [OF p q o(2), of "EventCounter ''Text''"] obtain w' stats' where
    l: "async_for (\<lambda>x. row_step (txt_line x) (write_file ?t)) (aiter_of xs) (w1, EventCounter ''Text'')
          = ((w', stats'), None)"
    and r: "files w' = (files w1)(?t \<mapsto> RegularFile (?c @ rows_written (write_fails w1 ?t) txt_line xs ?c))"
      "errlog w' = errlog w1 @ rows_failed (write_fails w1 ?t) txt_line xs ?c"
      "counts stats' ''rows'' = counts (EventCounter ''Text'') ''rows'' + length (rows_written (write_fails w1 ?t) txt_line xs ?c)"
      "counts stats' ''errors'' = counts (EventCounter ''Text'') ''errors'' + length (rows_failed (write_fails w1 ?t) txt_line xs ?c)"
    by blast
  have "export_txt (aiter_of xs) filename force append' w = (w', Inr stats')"
    using assms(1,2,5) l o(1)
    by (simp add: export_txt_def export_txt_body_def Let_def except_CancelledError_def except_Exception_def)
  then show ?thesis
    using r o by (auto simp: EventCounter_def)
qed

lemma export_txt_stdout_rows:
  assumes "\<forall>x\<in>set xs. \<forall>e. txt_row x ''rich'' = Inl e \<longrightarrow> is_Exception e"
    and "\<forall>c t e. print_fails w c t = Some e \<longrightarrow> is_Exception e"
  shows "\<exists>w' stats.
           export_txt (aiter_of xs) ''-'' force append' w = (w', Inr stats)
         \<and> files w' = files w
         \<and> stdout w' = stdout w @ rows_written (print_fails w) (\<lambda>x. txt_row x ''rich'') xs (stdout w)
         \<and> errlog w' = errlog w @ rows_failed (print_fails w) (\<lambda>x. txt_row x ''rich'') xs (stdout w)
         \<and> counts stats ''rows'' = length (rows_written (print_fails w) (\<lambda>x. txt_row x ''rich'') xs (stdout w))
         \<and> counts stats ''errors'' = length (rows_failed (print_fails w) (\<lambda>x. txt_row x ''rich'') xs (stdout w))"
proof -
  from async_for_print [OF assms, of "EventCounter ''Text''"] obtain w' stats' where
    l: "async_for (\<lambda>x. row_step (txt_row x ''rich'') print) (aiter_of xs) (w, EventCounter ''Text'') = ((w', stats'), None)"
    and r: "files w' = files w"
      "stdout w' = stdout w @ rows_written (print_fails w) (\<lambda>x. txt_row x ''rich'') xs (stdout w)"
      "errlog w' = errlog w @ rows_failed (print_fails w) (\<lambda>x. txt_row x ''rich'') xs (stdout w)"
      "counts stats' ''rows'' = counts (EventCounter ''Text'') ''rows'' + length (rows_written (print_fails w) (\<lambda>x. txt_row x ''rich'') xs (stdout w))"
      "counts stats' ''errors'' = counts (EventCounter ''Text'') ''errors'' + length (rows_failed (print_fails w) (\<lambda>x. txt_row x ''rich'') xs (stdout w))"
    by blast
  have "export_txt (aiter_of xs) ''-'' force append' w = (w', Inr stats')"
    using l
    by (simp add: export_txt_def export_txt_body_def except_CancelledError_def except_Exception_def)
  then show ?thesis
    using r by (auto simp: EventCounter_def)
qed

lemma export_csv_file_rows:
  assumes "filename \<noteq> []" and "filename \<noteq> ''-''"
    and "\<forall>x\<in>set xs. \<forall>e. csv_file_line lib fieldnames x = Inl e \<longrightarrow> is_Exception e"
    and "\<forall>c t e. write_fails w (with_suffix filename ''csv'') c t = Some e \<longrightarrow> is_Exception e"
    and "xs = x0 # rest" and "csv_headers x0 = Inr fieldnames"
    and "\<not> destination_conflict w (with_suffix filename ''csv'') force append'"
    and "\<forall>m. open_fails w (with_suffix filename ''csv'') m = None"
    and "write_fails w (with_suffix filename ''csv'') (initial_content w (with_suffix filename ''csv'') append')
           (writeheader lib fieldnames) = None"
    and "start = initial_content w (with_suffix filename ''csv'') append'
           @ (if append' \<and> isfile w (with_suffix filename ''csv'') then [] else [writeheader lib fieldnames])"
  shows "\<exists>w' stats.
           export_csv lib (aiter_of xs) filename force append' w = (w', Inr stats)
         \<and> files w' (with_suffix filename ''csv'')
             = Some (RegularFile (start
                 @ rows_written (write_fails w (with_suffix filename ''csv'')) (csv_file_line lib fieldnames) xs start))
         \<and> errlog w' = errlog w
             @ rows_failed (write_fails w (with_suffix filename ''csv'')) (csv_file_line lib fieldnames) xs start
         \<and> counts stats ''rows''
             = length (rows_written (write_fails w (with_suffix filename ''csv'')) (csv_file_line lib fieldnames) xs start)
         \<and> counts stats ''errors''
             = length (rows_failed (write_fails w (with_suffix filename ''csv'')) (csv_file_line lib fieldnames) xs start)"
proof -
  let ?t = "with_suffix filename ''csv''"
  let ?c = "initial_content w ?t append'"
  let ?h = "writeheader lib fieldnames"
  define a where "a = (append' \<and> isfile w ?t)"
  from open_file_content [OF assms(7,8)] obtain w1 where
    o: "open_file ?t (if a then ModeA else ModeW) w = Inr w1"
      "files w1 ?t = Some (RegularFile ?c)" "stdout w1 = stdout w" "errlog w1 = errlog w"
      "write_fails w1 = write_fails w"
    unfolding a_def by blast
  define w2 where "w2 = (if a then w1 else w1\<lparr>files := (files w1)(?t \<mapsto> RegularFile (?c @ [?h]))\<rparr>)"
  have st: "start = ?c @ (if a then [] else [?h])"
    using assms(10) by (simp add: a_def)
  have h: "(if \<not> a then write_file ?t ?h w1 else Inr w1) = Inr w2"
    using o(2,5) assms(9) by (simp add: w2_def write_file_def)
  have f2: "files w2 ?t = Some (RegularFile start)"
    using o(2) by (simp add: w2_def st)
  have e2: "errlog w2 = errlog w" "write_fails w2 = write_fails w"
    using o(4,5) by (simp_all add: w2_def)
  have q: "\<forall>c t e. write_fails w2 ?t c t = Some e \<longrightarrow> is_Exception e"
    using assms(4) e2(2) by simp
  from async_for_write_file [OF assms(3) q f2, of "EventCounter ''CSV''"] obtain w' stats' where
    l: "async_for (\<lambda>x. row_step (csv_file_line lib fieldnames x) (write_file ?t)) (aiter_of xs) (w2, EventCounter ''CSV'')
          = ((w', stats'), None)"
    and r: "files w' = (files w2)(?t \<mapsto> RegularFile (start
                @ rows_written (write_fails w2 ?t) (csv_file_line lib fieldnames) xs start))"
      "errlog w' = errlog w2 @ rows_failed (write_fails w2 ?t) (csv_file_line lib fieldnames) xs start"
      "counts stats' ''rows'' = counts (EventCounter ''CSV'') ''rows''
         + length (rows_written (write_fails w2 ?t) (csv_file_line lib fieldnames) xs start)"
      "counts stats' ''errors'' = counts (EventCounter ''CSV'') ''errors''
         + length (rows_failed (write_fails w2 ?t) (csv_file_line lib fieldnames) xs start)"
    by blast
  have body: "export_csv_body lib (aiter_of xs) filename force append' (w, EventCounter ''CSV'') = ((w', stats'), None)"
  proof (cases a)
    case True
    then have "append'" and "isfile w ?t" by (simp_all add: a_def)
    with True show ?thesis
      using assms(2,5,6,7) l o(1) h
      by (simp add: export_csv_body_def Let_def except_CancelledError_def)
  next
    case False
    then consider "\<not> append'" | "append'" and "\<not> isfile w ?t"
      by (auto simp: a_def)
    then show ?thesis
    proof cases
      case 1
      with False show ?thesis
        using assms(2,5,6,7) l o(1) h
        by (simp add: export_csv_body_def Let_def except_CancelledError_def)
    next
      case 2
      with False show ?thesis
        using assms(2,5,6,7) l o(1) h
        by (simp add: export_csv_body_def Let_def except_CancelledError_def)
    qed
  qed
  have "export_csv lib (aiter_of xs) filename force append' w = (w', Inr stats')"
    using assms(1) body by (simp add: export_csv_def except_Exception_def)
  moreover have "files w' ?t = Some (RegularFile (start
      @ rows_written (write_fails w2 ?t) (csv_file_line lib fieldnames) xs start))"
    using r(1) by simp
  ultimately show ?thesis
    using r(2,3,4) e2 by (auto simp: EventCounter_def)
qed

text \<open>
  On standard output \<open>export_csv\<close> isolates a missing column, and nothing else: a
  \<open>KeyError\<close> is reported and counted, any other exception leaves the row loop.
\<close>

lemma csv_stdout_step_cases:
  "csv_stdout_line lib fieldnames x = Inl KeyError \<Longrightarrow>
     csv_stdout_step lib fieldnames x (w, stats) = ((error KeyError w, log stats ''errors''), None)"
  "csv_stdout_line lib fieldnames x = Inl e \<Longrightarrow> e \<noteq> KeyError \<Longrightarrow>
     csv_stdout_step lib fieldnames x (w, stats) = ((w, stats), Some e)"
  by (simp_all add: csv_stdout_step_def csv_stdout_except_def)

text \<open>
  The five records whose third fails to render, exported to a file as CSV and as JSON
  and to standard output as JSON: four rows in the input order, one error.
\<close>

lemma export_five_rows:
  "(\<exists>w' stats.
      export_csv ex_lib (aiter_of ex_five) ''out'' False False ex_empty_world = (w', Inr stats)
    \<and> files w' ''out.csv''
        = Some (RegularFile [''name'' @ linesep, ''1'' @ linesep, ''2'' @ linesep, ''4'' @ linesep, ''5'' @ linesep])
    \<and> errlog w' = [ValueError] \<and> counts stats ''rows'' = 4 \<and> counts stats ''errors'' = 1)
   \<and> (\<exists>w' stats.
      export_json (aiter_of ex_five) ''out'' False False ex_empty_world = (w', Inr stats)
    \<and> files w' ''out.json''
        = Some (RegularFile [''1'' @ linesep, ''2'' @ linesep, ''4'' @ linesep, ''5'' @ linesep])
    \<and> errlog w' = [ValueError] \<and> counts stats ''rows'' = 4 \<and> counts stats ''errors'' = 1)
   \<and> (\<exists>w' stats.
      export_json (aiter_of ex_five) ''-'' False False ex_empty_world = (w', Inr stats)
    \<and> stdout w' = [''1'', ''2'', ''4'', ''5'']
    \<and> errlog w' = [ValueError] \<and> counts stats ''rows'' = 4 \<and> counts stats ''errors'' = 1)"
proof -
  have nc: "with_suffix ''out'' ''csv'' = ''out.csv''"
    by (simp add: with_suffix_def endswith_def lower_def lower_char_def)
  have nj: "with_suffix ''out'' ''json'' = ''out.json''"
    by (simp add: with_suffix_def endswith_def lower_def lower_char_def)
  have a: "''out'' \<noteq> []" "''out'' \<noteq> ''-''" by simp_all
  have lines: "csv_file_line ex_lib [''name''] (ex_row s) = Inr (s @ linesep)"
    "csv_file_line ex_lib [''name''] ex_bad = Inl ValueError" for s
    by (simp_all add: csv_file_line_def csv_row_def clear_None_def ex_lib_def ex_row_def ex_bad_def
        ex_str_cell_def)
  have c: "\<forall>x\<in>set ex_five. \<forall>e. csv_file_line ex_lib [''name''] x = Inl e \<longrightarrow> is_Exception e"
    by (auto simp: ex_five_def lines)
  have j: "\<forall>x\<in>set ex_five. \<forall>e. json_src x = Inl e \<longrightarrow> is_Exception e"
    by (auto simp: ex_five_def ex_row_def ex_bad_def)
  have x: "ex_five = ex_row ''1'' # [ex_row ''2'', ex_bad, ex_row ''4'', ex_row ''5'']"
    by (simp add: ex_five_def)
  have h: "csv_headers (ex_row ''1'') = Inr [''name'']"
    by (simp add: ex_row_def)
  have i: "initial_content ex_empty_world f False = []" "\<not> isfile ex_empty_world f"
    "stdout ex_empty_world = []" "errlog ex_empty_world = []"
    "write_fails ex_empty_world = (\<lambda>_ _ _. None)" "print_fails ex_empty_world = (\<lambda>_ _. None)"
    "open_fails ex_empty_world = (\<lambda>_ _. None)" for f
    by (simp_all add: initial_content_def isfile_def ex_empty_world_def)
  have d: "\<not> destination_conflict ex_empty_world f False False" for f
    by (simp add: destination_conflict_def exists_def ex_empty_world_def)
  have hd: "writeheader ex_lib [''name''] = ''name'' @ linesep"
    by (simp add: ex_lib_def)
  have v: "rows_written (\<lambda>_ _. None) (csv_file_line ex_lib [''name'']) ex_five c0
             = [''1'' @ linesep, ''2'' @ linesep, ''4'' @ linesep, ''5'' @ linesep]"
    "rows_failed (\<lambda>_ _. None) (csv_file_line ex_lib [''name'']) ex_five c0 = [ValueError]" for c0
    by (simp_all add: ex_five_def lines)
  have vj: "rows_written (\<lambda>_ _. None) json_line ex_five c0
              = [''1'' @ linesep, ''2'' @ linesep, ''4'' @ linesep, ''5'' @ linesep]"
    "rows_failed (\<lambda>_ _. None) json_line ex_five c0 = [ValueError]"
    "rows_written (\<lambda>_ _. None) json_src ex_five c0 = [''1'', ''2'', ''4'', ''5'']"
    "rows_failed (\<lambda>_ _. None) json_src ex_five c0 = [ValueError]" for c0
    by (simp_all add: ex_five_def json_line_def ex_row_def ex_bad_def)
  have "\<exists>w' stats.
      export_csv ex_lib (aiter_of ex_five) ''out'' False False ex_empty_world = (w', Inr stats)
    \<and> files w' ''out.csv''
        = Some (RegularFile [''name'' @ linesep, ''1'' @ linesep, ''2'' @ linesep, ''4'' @ linesep, ''5'' @ linesep])
    \<and> errlog w' = [ValueError] \<and> counts stats ''rows'' = 4 \<and> counts stats ''errors'' = 1"
    using export_csv_file_rows [where filename = "''out''" and xs = ex_five and lib = ex_lib
        and fieldnames = "[''name'']" and w = ex_empty_world
        and force = False and append' = False and start = "[''name'' @ linesep]", OF a c _ x h d]
    by (simp add: nc i hd v eval_nat_numeral)
  moreover have "\<exists>w' stats.
      export_json (aiter_of ex_five) ''out'' False False ex_empty_world = (w', Inr stats)
    \<and> files w' ''out.json''
        = Some (RegularFile [''1'' @ linesep, ''2'' @ linesep, ''4'' @ linesep, ''5'' @ linesep])
    \<and> errlog w' = [ValueError] \<and> counts stats ''rows'' = 4 \<and> counts stats ''errors'' = 1"
    using export_json_file_rows [where filename = "''out''" and xs = ex_five and w = ex_empty_world
        and force = False and append' = False, OF a j _ d]
    by (simp add: nj i vj eval_nat_numeral)
  moreover have "\<exists>w' stats.
      export_json (aiter_of ex_five) ''-'' False False ex_empty_world = (w', Inr stats)
    \<and> stdout w' = [''1'', ''2'', ''4'', ''5'']
    \<and> errlog w' = [ValueError] \<and> counts stats ''rows'' = 4 \<and> counts stats ''errors'' = 1"
    using export_json_stdout_rows [where xs = ex_five and w = ex_empty_world
        and force = False and append' = False, OF j]
    by (auto simp add: i vj eval_nat_numeral)
  ultimately show ?thesis by blast
qed

text \<open>
  Claim C7, evaluated where it fails. The same five records, whose third raises
  \<open>ValueError\<close> when rendered, exported as CSV to standard output: the row loop there
  catches \<open>KeyError\<close> only, so the exception leaves the loop. The header and the first
  two rows are printed, the outer handler reports the exception, \<open>errors\<close> stays 0, and
  the records 4 and 5 are never written.
\<close>

theorem export_csv_stdout_stops_at_failure:
  "stdout (fst (export_csv ex_lib (aiter_of ex_five) ''-'' False False ex_empty_world)) = [''name'', ''1'', ''2'']
   \<and> errlog (fst (export_csv ex_lib (aiter_of ex_five) ''-'' False False ex_empty_world)) = [ValueError]
   \<and> snd (export_csv ex_lib (aiter_of ex_five) ''-'' False False ex_empty_world)
       = Inr (log (log (EventCounter ''CSV'') ''rows'') ''rows'')
   \<and> counts (log (log (EventCounter ''CSV'') ''rows'') ''rows'') ''rows'' = 2
   \<and> counts (log (log (EventCounter ''CSV'') ''rows'') ''rows'') ''errors'' = 0"
proof -
  have lines: "csv_stdout_line ex_lib [''name''] (ex_row s) = Inr s"
    "csv_stdout_line ex_lib [''name''] ex_bad = Inl ValueError" for s
    by (simp_all add: csv_stdout_line_def csv_row_def clear_None_def ex_lib_def ex_row_def ex_bad_def
        ex_str_cell_def)
  have h: "csv_headers (ex_row s) = Inr [''name'']" for s
    by (simp add: ex_row_def)
  have e: "export_csv ex_lib (aiter_of ex_five) ''-'' False False ex_empty_world
         = (ex_empty_world\<lparr>stdout := [''name'', ''1'', ''2''], errlog := [ValueError]\<rparr>,
            Inr (log (log (EventCounter ''CSV'') ''rows'') ''rows''))"
    by (simp add: export_csv_def export_csv_body_def ex_five_def h lines csv_stdout_step_def
        csv_stdout_except_def except_CancelledError_def except_Exception_def delimiter_def
        print_def error_def ex_empty_world_def)
  show ?thesis
    unfolding e by (simp add: log_def EventCounter_def)
qed

end
